theory Spec2Isabelle
  imports Main
begin

section \<open>Avatar resolution of a .bit account (plugin BitPluginAvatar)\<close>

text \<open>
  The development embeds the avatar plugin of the repository: \<open>getIpfsLink\<close>,
  \<open>_parseBytes\<close>, \<open>_parseString\<close>, the constructor of \<open>BitPluginAvatar\<close> and the
  \<open>avatar\<close> function that \<open>onInitAccount\<close> installs on an account.

  Conventions of the embedding.
  \<^item> A JavaScript string is a \<^typ>\<open>string\<close>, read as the UTF-8 encoding of the
    JavaScript string. Every pattern, prefix and separator the code looks for is ASCII,
    so cutting at a matched ASCII prefix, splitting at \<open>/\<close> and replacing \<open>{id}\<close>
    act on the bytes exactly as they act on the UTF-16 code units. A string with an
    unpaired surrogate has no such encoding and is outside the model.
  \<^item> A function that can throw returns \<open>error + 'a\<close>, \<open>Inl\<close> being the exception.
  \<^item> \<open>null\<close> and \<open>undefined\<close> are \<open>None\<close>.
  \<^item> An identifier cannot start with an underscore, so \<open>_parseBytes\<close> and
    \<open>_parseString\<close> are \<open>parseBytes\<close> and \<open>parseString\<close>.
  \<^item> The functions the plugin imports from the ethers packages (\<open>hexDataSlice\<close>,
    \<open>hexZeroPad\<close>, \<open>hexConcat\<close>, \<open>BigNumber\<close>, \<open>toUtf8String\<close>, the formatter) are
    modelled after the behaviour of ethers 5; \<open>getAddress\<close>, whose checksum is a
    Keccak-256 digest, the JSON-RPC backend, the HTTP fetch and the account's own
    \<open>info\<close> and \<open>records\<close> are parameters collected in the record \<open>env\<close>.
\<close>

datatype error =
    UnsupportedIpfsFormat
  | InvalidHexData
  | InvalidBigNumber
  | NumericOverflow
  | InvalidArrayify
  | InvalidUtf8
  | InvalidAddress
  | ValueOutOfRange
  | BadBackendResult
  | TransportError

subsection \<open>Strings and the regular expressions of the plugin\<close>

definition code :: "char \<Rightarrow> nat" where
  "code c = of_char c"

definition is_upper :: "char \<Rightarrow> bool" where
  "is_upper c = (65 \<le> code c \<and> code c \<le> 90)"

definition toLowerCase :: "string \<Rightarrow> string" where
  \<comment> \<open>on the ASCII letters, the only ones the case-insensitive patterns can match\<close>
  "toLowerCase s = map (\<lambda>c. if is_upper c then char_of (code c + 32) else c) s"

definition substring2 :: "string \<Rightarrow> int \<Rightarrow> int \<Rightarrow> string" where
  \<comment> \<open>\<open>s.substring(a, b)\<close>: both indices are clamped to \<open>0 .. length\<close>, and swapped if \<open>a > b\<close>\<close>
  "substring2 s a b =
     (let a' = min (nat a) (length s); b' = min (nat b) (length s)
      in take (max a' b' - min a' b') (drop (min a' b') s))"

definition substring1 :: "string \<Rightarrow> int \<Rightarrow> string" where
  \<comment> \<open>\<open>s.substring(a)\<close>\<close>
  "substring1 s a = drop (nat a) s"

definition startsWith_i :: "string \<Rightarrow> string \<Rightarrow> bool" where
  \<comment> \<open>\<open>s.match(/^p/i)\<close> for a lower-case ASCII literal \<open>p\<close>\<close>
  "startsWith_i p s = (toLowerCase (take (length p) s) = p)"

fun has_line_terminator :: "string \<Rightarrow> bool" where
  \<comment> \<open>the characters \<open>.\<close> does not match: LF, CR, U+2028 and U+2029 (E2 80 A8, E2 80 A9)\<close>
  "has_line_terminator [] = False"
| "has_line_terminator (c # cs) =
     (c = CHR 0x0A \<or> c = CHR 0x0D
      \<or> (c = CHR 0xE2 \<and> (take 2 cs = [CHR 0x80, CHR 0xA8] \<or> take 2 cs = [CHR 0x80, CHR 0xA9]))
      \<or> has_line_terminator cs)"

definition is_digit :: "char \<Rightarrow> bool" where
  "is_digit c = (48 \<le> code c \<and> code c \<le> 57)"

definition is_hex_digit :: "char \<Rightarrow> bool" where
  "is_hex_digit c =
     (is_digit c \<or> (97 \<le> code c \<and> code c \<le> 102) \<or> (65 \<le> code c \<and> code c \<le> 70))"

text \<open>
  The result of \<open>s.match(re)\<close> for the four patterns of \<open>matchers\<close>: \<open>None\<close> is \<open>null\<close>,
  \<open>Some (g1, g2)\<close> holds the capture groups \<open>match[1]\<close> and \<open>match[2]\<close>. None of the
  patterns has the flag \<open>s\<close> or \<open>m\<close>, so \<open>(.*)$\<close> matches the rest of the string only
  when no line terminator occurs in it.
\<close>

definition matcher_https :: "string \<Rightarrow> (string \<times> string) option" where
  \<comment> \<open>\<open>/^(https):\/\/(.*)$/i\<close>\<close>
  "matcher_https s =
     (if startsWith_i ''https://'' s \<and> \<not> has_line_terminator (drop 8 s)
      then Some (take 5 s, drop 8 s) else None)"

definition matcher_data :: "string \<Rightarrow> (string \<times> string) option" where
  \<comment> \<open>\<open>/^(data):(.*)$/i\<close>\<close>
  "matcher_data s =
     (if startsWith_i ''data:'' s \<and> \<not> has_line_terminator (drop 5 s)
      then Some (take 4 s, drop 5 s) else None)"

definition matcherIpfs :: "string \<Rightarrow> (string \<times> string) option" where
  \<comment> \<open>\<open>/^(ipfs):\/\/(.*)$/i\<close>\<close>
  "matcherIpfs s =
     (if startsWith_i ''ipfs://'' s \<and> \<not> has_line_terminator (drop 7 s)
      then Some (take 4 s, drop 7 s) else None)"

definition matcher_eip155 :: "string \<Rightarrow> (string \<times> string) option" where
  \<comment> \<open>\<open>/^eip155:[0-9]+\/(erc[0-9]+):(.*)$/i\<close>\<close>
  "matcher_eip155 s =
     (if startsWith_i ''eip155:'' s then
        (let r1 = drop 7 s; d1 = takeWhile is_digit r1; r2 = dropWhile is_digit r1
         in if d1 \<noteq> [] \<and> take 1 r2 = ''/'' \<and> startsWith_i ''erc'' (drop 1 r2) then
              (let r3 = drop 1 r2; r4 = drop 3 r3;
                   d2 = takeWhile is_digit r4; r5 = dropWhile is_digit r4
               in if d2 \<noteq> [] \<and> take 1 r5 = '':'' \<and> \<not> has_line_terminator (drop 1 r5)
                  then Some (take 3 r3 @ d2, drop 1 r5) else None)
            else None)
      else None)"

definition matchers :: "(string \<Rightarrow> (string \<times> string) option) list" where
  "matchers = [matcher_https, matcher_data, matcherIpfs, matcher_eip155]"

subsection \<open>getIpfsLink\<close>

definition default_gateway :: string where
  "default_gateway = ''https://gateway.ipfs.io''"

definition getIpfsLink :: "string \<Rightarrow> string \<Rightarrow> error + string" where
  "getIpfsLink link gateway =
     (if startsWith_i ''ipfs://ipfs/'' link then Inr (gateway @ ''/ipfs/'' @ substring1 link 12)
      else if startsWith_i ''ipfs://'' link then Inr (gateway @ ''/ipfs/'' @ substring1 link 7)
      else Inl UnsupportedIpfsFormat)"

subsection \<open>Hex strings, big numbers and UTF-8 (the ethers packages)\<close>

definition isHexString :: "string \<Rightarrow> nat option \<Rightarrow> bool" where
  \<comment> \<open>\<open>value.match(/^0x[0-9A-Fa-f]*$/)\<close>, and \<open>value.length === 2 + 2 * length\<close> when a
      non-zero length is given\<close>
  "isHexString v len =
     (take 2 v = ''0x'' \<and> list_all is_hex_digit (drop 2 v)
      \<and> (case len of None \<Rightarrow> True | Some n \<Rightarrow> n = 0 \<or> length v = 2 + 2 * n))"

definition hexDataSlice :: "string \<Rightarrow> int \<Rightarrow> int option \<Rightarrow> error + string" where
  "hexDataSlice data offset endOffset =
     (if isHexString data None \<and> even (length data)
      then (case endOffset of
              Some e \<Rightarrow> Inr (''0x'' @ substring2 data (2 + 2 * offset) (2 + 2 * e))
            | None \<Rightarrow> Inr (''0x'' @ substring1 data (2 + 2 * offset)))
      else Inl InvalidHexData)"

definition hex_digit_val :: "char \<Rightarrow> nat" where
  "hex_digit_val c =
     (if is_digit c then code c - 48
      else if 97 \<le> code c \<and> code c \<le> 102 then code c - 87
      else code c - 55)"

definition hex_val :: "string \<Rightarrow> nat" where
  "hex_val s = foldl (\<lambda>a c. 16 * a + hex_digit_val c) 0 s"

definition dec_val :: "string \<Rightarrow> nat" where
  "dec_val s = foldl (\<lambda>a c. 10 * a + (code c - 48)) 0 s"

definition hex_digit :: "nat \<Rightarrow> char" where
  "hex_digit d = ''0123456789abcdef'' ! d"

fun to_hex :: "nat \<Rightarrow> string" where
  \<comment> \<open>\<open>BN.toString(16)\<close> of a non-negative number: lower case, no leading zero\<close>
  "to_hex n = (if n < 16 then [hex_digit n] else to_hex (n div 16) @ [hex_digit (n mod 16)])"

fun to_dec :: "nat \<Rightarrow> string" where
  \<comment> \<open>\<open>BN.toString(10)\<close> of a non-negative number\<close>
  "to_dec n = (if n < 10 then [hex_digit n] else to_dec (n div 10) @ [hex_digit (n mod 10)])"

declare to_hex.simps [simp del]
declare to_dec.simps [simp del]

fun trim00 :: "string \<Rightarrow> string" where
  \<comment> \<open>on the digits after \<open>0x\<close>: \<open>while (value.length > 4 && value.substring(0, 4) === "0x00")
      value = "0x" + value.substring(4)\<close>\<close>
  "trim00 (a # b # c # r) =
     (if a = CHR ''0'' \<and> b = CHR ''0'' then trim00 (c # r) else a # b # c # r)"
| "trim00 ds = ds"

definition toHex_unsigned :: "string \<Rightarrow> string" where
  \<comment> \<open>\<open>toHex\<close> of \<open>bignumber.ts\<close> on a string without a leading minus sign\<close>
  "toHex_unsigned v =
     (let v1 = (if take 2 v \<noteq> ''0x'' then ''0x'' @ v else v)
      in if v1 = ''0x'' then ''0x00''
         else (let v2 = (if odd (length v1) then ''0x0'' @ drop 2 v1 else v1)
               in ''0x'' @ trim00 (drop 2 v2)))"

definition toHex :: "string \<Rightarrow> error + string" where
  "toHex v =
     (if take 1 v = ''-'' then
        (let w = drop 1 v
         in if take 1 w = ''-'' then Inl InvalidBigNumber
            else (let h = toHex_unsigned w in if h = ''0x00'' then Inr h else Inr (''-'' @ h)))
      else Inr (toHex_unsigned v))"

datatype BigNumber = BigNumber (hex_of: string)
  \<comment> \<open>the field \<open>_hex\<close>\<close>

definition unsign :: "string \<Rightarrow> string" where
  "unsign s = (if take 1 s = ''-'' then drop 1 s else s)"

definition BigNumber_from :: "string \<Rightarrow> error + BigNumber" where
  \<comment> \<open>\<open>BigNumber.from\<close> on a string: \<open>/^-?0x[0-9a-f]+$/i\<close>, then \<open>/^-?[0-9]+$/\<close>\<close>
  "BigNumber_from v =
     (if toLowerCase (take 2 (unsign v)) = ''0x'' \<and> drop 2 (unsign v) \<noteq> []
          \<and> list_all is_hex_digit (drop 2 (unsign v))
      then map_sum id BigNumber (toHex v)
      else if unsign v \<noteq> [] \<and> list_all is_digit (unsign v)
      then map_sum id BigNumber
             (toHex ((if take 1 v = ''-'' \<and> dec_val (unsign v) \<noteq> 0 then ''-'' else [])
                     @ to_hex (dec_val (unsign v))))
      else Inl InvalidBigNumber)"

definition toHexString :: "BigNumber \<Rightarrow> string" where
  "toHexString b = hex_of b"

definition bn_value :: "BigNumber \<Rightarrow> int" where
  \<comment> \<open>\<open>toBN\<close>: the number a well-formed \<open>_hex\<close> denotes\<close>
  "bn_value b =
     (if take 1 (hex_of b) = ''-'' then - int (hex_val (drop 3 (hex_of b)))
      else int (hex_val (drop 2 (hex_of b))))"

definition toNumber :: "BigNumber \<Rightarrow> error + int" where
  \<comment> \<open>fails beyond 53 bits\<close>
  "toNumber b = (if \<bar>bn_value b\<bar> < 2 ^ 53 then Inr (bn_value b) else Inl NumericOverflow)"

definition isZero :: "BigNumber \<Rightarrow> bool" where
  "isZero b = (bn_value b = 0)"

definition toString :: "BigNumber \<Rightarrow> string" where
  "toString b =
     (if bn_value b < 0 then ''-'' @ to_dec (nat (- bn_value b)) else to_dec (nat (bn_value b)))"

definition hexlify :: "string \<Rightarrow> error + string" where
  \<comment> \<open>on a string, without options: a hex string of even length, in lower case\<close>
  "hexlify v =
     (if isHexString v None then (if odd (length v) then Inl InvalidHexData else Inr (toLowerCase v))
      else Inl InvalidHexData)"

fun hexConcat :: "string list \<Rightarrow> error + string" where
  "hexConcat [] = Inr ''0x''"
| "hexConcat (item # items) =
     (case hexlify item of
        Inl e \<Rightarrow> Inl e
      | Inr h \<Rightarrow> (case hexConcat items of
                    Inl e \<Rightarrow> Inl e
                  | Inr r \<Rightarrow> Inr (''0x'' @ substring1 h 2 @ substring1 r 2)))"

definition hexZeroPad :: "string \<Rightarrow> nat \<Rightarrow> error + string" where
  \<comment> \<open>on a string: \<open>while (value.length < 2 * length + 2) value = "0x0" + value.substring(2)\<close>\<close>
  "hexZeroPad v len =
     (if \<not> isHexString v None then Inl InvalidHexData
      else if length v > 2 * len + 2 then Inl ValueOutOfRange
      else Inr (''0x'' @ replicate (2 * len + 2 - length v) CHR ''0'' @ drop 2 v))"

fun hex_pairs :: "string \<Rightarrow> nat list" where
  "hex_pairs (a # b # r) = (16 * hex_digit_val a + hex_digit_val b) # hex_pairs r"
| "hex_pairs r = []"

definition arrayify :: "string option \<Rightarrow> error + nat list" where
  \<comment> \<open>on \<open>null\<close> or a string, without options\<close>
  "arrayify v =
     (case v of
        None \<Rightarrow> Inl InvalidArrayify
      | Some s \<Rightarrow>
          (if isHexString s None
           then (if odd (length s) then Inl InvalidHexData else Inr (hex_pairs (drop 2 s)))
           else Inl InvalidArrayify))"

text \<open>
  \<open>getUtf8CodePoints\<close> with the default error function, which throws at the first
  bad prefix, unexpected or missing continuation byte, overrun, overlong form,
  surrogate half and value beyond U+10FFFF. On a byte the masks and shifts of the
  library are divisions: \<open>c >> 7\<close> is \<open>c div 128\<close>, \<open>(c & 0xe0) === 0xc0\<close> is
  \<open>c div 32 = 6\<close>, \<open>(b & 0xc0) === 0x80\<close> is \<open>b div 64 = 2\<close>, \<open>b & 0x3f\<close> is
  \<open>b mod 64\<close> and \<open>(res << 6) | x\<close> is \<open>res * 64 + x\<close> for \<open>x < 64\<close>.
\<close>

definition utf8_multi :: "nat \<Rightarrow> nat list \<Rightarrow> nat \<Rightarrow> nat \<Rightarrow> nat option" where
  \<comment> \<open>the code point of the lead byte \<open>c\<close> and \<open>extraLength\<close> continuation bytes of \<open>bs\<close>\<close>
  "utf8_multi c bs extraLength overlongMask =
     (if length bs < extraLength then None
      else if \<not> list_all (\<lambda>b. b div 64 = 2) (take extraLength bs) then None
      else (let res = foldl (\<lambda>r b. r * 64 + b mod 64) (c mod 2 ^ (8 - extraLength - 1))
                        (take extraLength bs)
            in if res > 0x10ffff then None
               else if 0xd800 \<le> res \<and> res \<le> 0xdfff then None
               else if res \<le> overlongMask then None
               else Some res))"

function getUtf8CodePoints :: "nat list \<Rightarrow> error + nat list" where
  "getUtf8CodePoints [] = Inr []"
| "getUtf8CodePoints (c # bs) =
     (if c div 128 = 0 then map_sum id ((#) c) (getUtf8CodePoints bs)
      else (let extraLength = (if c div 32 = 6 then 1 else if c div 16 = 14 then 2
                               else if c div 8 = 30 then 3 else 0);
                overlongMask = (if c div 32 = 6 then 0x7f else if c div 16 = 14 then 0x7ff
                                else 0xffff)
            in if extraLength = 0 then Inl InvalidUtf8
               else (case utf8_multi c bs extraLength overlongMask of
                       None \<Rightarrow> Inl InvalidUtf8
                     | Some res \<Rightarrow>
                         map_sum id ((#) res) (getUtf8CodePoints (drop extraLength bs)))))"
  by pat_completeness auto
termination
  by (relation "measure length") auto

definition toUtf8String :: "string option \<Rightarrow> error + string" where
  \<comment> \<open>the string of the decoded code points; in the UTF-8 reading of strings it is the
      byte sequence itself\<close>
  "toUtf8String v =
     (case arrayify v of
        Inl e \<Rightarrow> Inl e
      | Inr bytes \<Rightarrow>
          (case getUtf8CodePoints bytes of
             Inl e \<Rightarrow> Inl e
           | Inr cps \<Rightarrow> Inr (map char_of bytes)))"

subsection \<open>The ABI decoder: \<open>_parseBytes\<close> and \<open>_parseString\<close>\<close>

text \<open>
  The parameter \<open>start\<close> is a JavaScript number; the model takes any integer. The
  offset and the length come out of \<open>toNumber\<close>, so they are integers below \<open>2 ^ 53\<close>,
  and the sums the code forms with them are exact up to that bound; a sum beyond it lies
  beyond the length of any string, where \<open>substring\<close> clamps every index alike.
\<close>

definition parseBytes :: "string \<Rightarrow> int \<Rightarrow> error + string option" where
  "parseBytes result start =
     (if result = ''0x'' then Inr None
      else (case hexDataSlice result start (Some (start + 32)) of
              Inl e \<Rightarrow> Inl e
            | Inr w1 \<Rightarrow>
          (case BigNumber_from w1 of
              Inl e \<Rightarrow> Inl e
            | Inr b1 \<Rightarrow>
          (case toNumber b1 of
              Inl e \<Rightarrow> Inl e
            | Inr offset \<Rightarrow>
          (case hexDataSlice result offset (Some (offset + 32)) of
              Inl e \<Rightarrow> Inl e
            | Inr w2 \<Rightarrow>
          (case BigNumber_from w2 of
              Inl e \<Rightarrow> Inl e
            | Inr b2 \<Rightarrow>
          (case toNumber b2 of
              Inl e \<Rightarrow> Inl e
            | Inr len \<Rightarrow>
          (case hexDataSlice result (offset + 32) (Some (offset + 32 + len)) of
              Inl e \<Rightarrow> Inl e
            | Inr bytes \<Rightarrow> Inr (Some bytes)))))))))"

definition parseString :: "string \<Rightarrow> int \<Rightarrow> error + string option" where
  \<comment> \<open>the \<open>try\<close> block returns the decoded string; the empty \<open>catch\<close> falls through to
      \<open>return null\<close>\<close>
  "parseString result start =
     (case parseBytes result start of
        Inl e \<Rightarrow> Inr None
      | Inr bytes \<Rightarrow>
          (case toUtf8String bytes of
             Inl e \<Rightarrow> Inr None
           | Inr s \<Rightarrow> Inr (Some s)))"

subsection \<open>Splitting and replacing\<close>

fun split_on :: "char \<Rightarrow> string \<Rightarrow> string list" where
  \<comment> \<open>\<open>s.split(c)\<close> for a one-character separator\<close>
  "split_on c [] = [[]]"
| "split_on c (x # xs) =
     (if x = c then [] # split_on c xs
      else (case split_on c xs of [] \<Rightarrow> [[x]] | y # ys \<Rightarrow> (x # y) # ys))"

fun replace_first :: "string \<Rightarrow> string \<Rightarrow> string \<Rightarrow> string" where
  \<comment> \<open>\<open>s.replace(pat, rep)\<close> for a string pattern: the first occurrence only. The
      replacement the plugin passes consists of hex digits, so no \<open>$\<close> pattern occurs.\<close>
  "replace_first pat rep [] = (if pat = [] then rep else [])"
| "replace_first pat rep (c # cs) =
     (if take (length pat) (c # cs) = pat then rep @ drop (length pat) (c # cs)
      else c # replace_first pat rep cs)"

subsection \<open>The plugin, the account and the collaborators\<close>

record options =
  ipfsGateway :: "string option"

record plugin =
  ipfs :: string

definition BitPluginAvatar :: "options option \<Rightarrow> plugin" where
  \<comment> \<open>the constructor: an absent or empty \<open>ipfsGateway\<close> is falsy and keeps the default\<close>
  "BitPluginAvatar opts =
     (case opts of
        None \<Rightarrow> \<lparr>ipfs = default_gateway\<rparr>
      | Some os \<Rightarrow>
          (case ipfsGateway os of
             None \<Rightarrow> \<lparr>ipfs = default_gateway\<rparr>
           | Some g \<Rightarrow> (if g = [] then \<lparr>ipfs = default_gateway\<rparr> else \<lparr>ipfs = g\<rparr>)))"

record account_info =
  owner_key :: "string option"

record metadata =
  \<comment> \<open>what the plugin observes of the fetched JSON value: whether it is truthy, its
      \<open>JSON.stringify\<close>, and its \<open>image\<close> member when that is a string\<close>
  truthy :: bool
  stringify :: string
  image :: "string option"

record env =
  account :: string
    \<comment> \<open>\<open>this.account\<close>\<close>
  info :: "error + account_info option"
    \<comment> \<open>\<open>await this.info()\<close>\<close>
  records :: "string \<Rightarrow> error + string list"
    \<comment> \<open>\<open>await this.records(key)\<close>: the \<open>value\<close> of each record, in order\<close>
  getAddress :: "string \<Rightarrow> error + string"
    \<comment> \<open>\<open>getAddress\<close> of ethers: the checksum address, or an exception\<close>
  perform_call :: "string \<Rightarrow> string \<Rightarrow> error + string"
    \<comment> \<open>the backend's answer to \<open>eth_call\<close> with \<open>to\<close> and \<open>data\<close>\<close>
  fetchJson :: "string \<Rightarrow> error + metadata"

definition provider_call :: "env \<Rightarrow> string \<Rightarrow> string \<Rightarrow> error + string" where
  \<comment> \<open>\<open>provider.call\<close> returns \<open>hexlify\<close> of the backend's answer\<close>
  "provider_call e to data =
     (case perform_call e to data of
        Inl x \<Rightarrow> Inl x
      | Inr r \<Rightarrow> (case hexlify r of Inl x \<Rightarrow> Inl BadBackendResult | Inr h \<Rightarrow> Inr h))"

definition AddressZero :: string where
  "AddressZero = ''0x0000000000000000000000000000000000000000''"

definition formatter_address :: "env \<Rightarrow> string \<Rightarrow> error + string" where
  "formatter_address e v = getAddress e v"

definition formatter_callAddress :: "env \<Rightarrow> string \<Rightarrow> error + string option" where
  "formatter_callAddress e v =
     (if isHexString v (Some 32)
      then (case hexDataSlice v 12 None of
              Inl x \<Rightarrow> Inl x
            | Inr a \<Rightarrow>
                (case getAddress e a of
                   Inl x \<Rightarrow> Inl x
                 | Inr address \<Rightarrow> Inr (if address = AddressZero then None else Some address)))
      else Inr None)"

subsection \<open>The avatar function\<close>

record link =
  type :: string
  content :: string

record resolved =
  linkage :: "link list"
  url :: string

text \<open>
  The state of one run: the array \<open>linkage\<close>, and a log of the contract calls and
  HTTP fetches made so far (\<open>to\<close> and \<open>data\<close> of each call, the URL of each fetch).
\<close>

record run =
  run_linkage :: "link list"
  run_calls :: "(string \<times> string) list"
  run_fetches :: "string list"

datatype outcome = Value resolved | Null | Thrown error
  \<comment> \<open>how the body ends: \<open>return {linkage, url}\<close>, \<open>return null\<close>, or an exception\<close>

definition push :: "run \<Rightarrow> string \<Rightarrow> string \<Rightarrow> run" where
  \<comment> \<open>\<open>linkage.push({ type, content })\<close>\<close>
  "push st t c = st\<lparr>run_linkage := run_linkage st @ [\<lparr>type = t, content = c\<rparr>]\<rparr>"

definition do_call :: "env \<Rightarrow> run \<Rightarrow> string \<Rightarrow> string \<Rightarrow> run \<times> (error + string)" where
  "do_call e st to data = (st\<lparr>run_calls := run_calls st @ [(to, data)]\<rparr>, provider_call e to data)"

definition do_fetch :: "env \<Rightarrow> run \<Rightarrow> string \<Rightarrow> run \<times> (error + metadata)" where
  "do_fetch e st u = (st\<lparr>run_fetches := run_fetches st @ [u]\<rparr>, fetchJson e u)"

definition finish :: "run \<Rightarrow> string \<Rightarrow> run \<times> outcome" where
  \<comment> \<open>\<open>return { linkage, url }\<close>\<close>
  "finish st u = (st, Value \<lparr>linkage = run_linkage st, url = u\<rparr>)"

definition avatar_image :: "run \<Rightarrow> string \<Rightarrow> run \<times> outcome" where
  \<comment> \<open>lines 192 to 208\<close>
  "avatar_image st imageUrl =
     (if startsWith_i ''https://'' imageUrl \<or> startsWith_i ''data:'' imageUrl
      then finish (push st ''url'' imageUrl) imageUrl
      else (case matcherIpfs imageUrl of
              None \<Rightarrow> (st, Null)
            | Some m \<Rightarrow>
                (let st1 = push st ''url-ipfs'' imageUrl
                 in (case getIpfsLink imageUrl default_gateway of
                       Inl x \<Rightarrow> (st1, Thrown x)
                     | Inr u \<Rightarrow> finish (push st1 ''url'' u) u))))"

definition avatar_fetch :: "env \<Rightarrow> run \<Rightarrow> string \<Rightarrow> run \<times> outcome" where
  \<comment> \<open>lines 177 to 190\<close>
  "avatar_fetch e st metadataUrl =
     (let st1 = push st ''metadata-url'' metadataUrl;
          (st2, r) = do_fetch e st1 metadataUrl
      in (case r of
            Inl x \<Rightarrow> (st2, Thrown x)
          | Inr m \<Rightarrow>
              (if truthy m
               then (let st3 = push st2 ''metadata'' (stringify m)
                     in (case image m of
                           None \<Rightarrow> (st3, Null)
                         | Some imageUrl \<Rightarrow> avatar_image st3 imageUrl))
               else (st2, Null))))"

definition avatar_metadata :: "plugin \<Rightarrow> env \<Rightarrow> run \<Rightarrow> string \<Rightarrow> run \<times> outcome" where
  \<comment> \<open>lines 172 to 175\<close>
  "avatar_metadata p e st metadataUrl =
     (if startsWith_i ''ipfs:'' metadataUrl
      then (case getIpfsLink metadataUrl (ipfs p) of
              Inl x \<Rightarrow> (st, Thrown x)
            | Inr u \<Rightarrow> avatar_fetch e st u)
      else avatar_fetch e st metadataUrl)"

definition avatar_tokenuri ::
  "plugin \<Rightarrow> env \<Rightarrow> run \<Rightarrow> string \<Rightarrow> string \<Rightarrow> string \<Rightarrow> string \<Rightarrow> run \<times> outcome" where
  \<comment> \<open>lines 154 to 170\<close>
  "avatar_tokenuri p e st scheme selector comps0 tokenId =
     (case formatter_address e comps0 of
        Inl x \<Rightarrow> (st, Thrown x)
      | Inr to \<Rightarrow>
     (case hexConcat [selector, tokenId] of
        Inl x \<Rightarrow> (st, Thrown x)
      | Inr data \<Rightarrow>
     (let (st1, r) = do_call e st to data
      in (case r of
            Inl x \<Rightarrow> (st1, Thrown x)
          | Inr ret \<Rightarrow>
         (case parseString ret 0 of
            Inl x \<Rightarrow> (st1, Thrown x)
          | Inr None \<Rightarrow> (st1, Null)
          | Inr (Some metadataUrl) \<Rightarrow>
              (let st2 = push st1 ''metadata-url-base'' metadataUrl
               in if scheme = ''erc1155''
                  then (let expanded = replace_first ''{id}'' (substring1 tokenId 2) metadataUrl
                        in avatar_metadata p e (push st2 ''metadata-url-expanded'' expanded)
                             expanded)
                  else avatar_metadata p e st2 metadataUrl))))))"

definition avatar_owner ::
  "plugin \<Rightarrow> env \<Rightarrow> run \<Rightarrow> string \<Rightarrow> string \<Rightarrow> string \<Rightarrow> string \<Rightarrow> string \<Rightarrow> string
     \<Rightarrow> run \<times> outcome" where
  \<comment> \<open>lines 132 to 152\<close>
  "avatar_owner p e st scheme selector owner comps0 addr tokenId =
     (if scheme = ''erc721'' then
        (case hexConcat [''0x6352211e'', tokenId] of
           Inl x \<Rightarrow> (st, Thrown x)
         | Inr data \<Rightarrow>
        (let (st1, r) = do_call e st addr data
         in (case r of
               Inl x \<Rightarrow> (st1, Thrown x)
             | Inr ret \<Rightarrow>
            (case formatter_callAddress e ret of
               Inl x \<Rightarrow> (st1, Thrown x)
             | Inr tokenOwner \<Rightarrow>
                 (case tokenOwner of
                    None \<Rightarrow> (st1, Null)
                  | Some t \<Rightarrow>
                      (if owner = t
                       then avatar_tokenuri p e (push st1 ''owner'' t) scheme selector comps0
                              tokenId
                       else (st1, Null)))))))
      else if scheme = ''erc1155'' then
        (case hexZeroPad owner 32 of
           Inl x \<Rightarrow> (st, Thrown x)
         | Inr padded \<Rightarrow>
        (case hexConcat [''0x00fdd58e'', padded, tokenId] of
           Inl x \<Rightarrow> (st, Thrown x)
         | Inr data \<Rightarrow>
        (let (st1, r) = do_call e st addr data
         in (case r of
               Inl x \<Rightarrow> (st1, Thrown x)
             | Inr ret \<Rightarrow>
            (case BigNumber_from ret of
               Inl x \<Rightarrow> (st1, Thrown x)
             | Inr balance \<Rightarrow>
                 (if isZero balance then (st1, Null)
                  else avatar_tokenuri p e (push st1 ''balance'' (toString balance)) scheme
                         selector comps0 tokenId))))))
      else avatar_tokenuri p e st scheme selector comps0 tokenId)"

definition avatar_token ::
  "plugin \<Rightarrow> env \<Rightarrow> run \<Rightarrow> string \<Rightarrow> string \<Rightarrow> string \<Rightarrow> string \<Rightarrow> run \<times> outcome" where
  \<comment> \<open>lines 114 to 130\<close>
  "avatar_token p e st scheme owner avatar_str g2 =
     (let selector = (if scheme = ''erc721'' then ''0xc87b56dd'' else ''0x0e89341c'');
          st1 = push st scheme avatar_str;
          comps = split_on CHR ''/'' g2
      in (case comps of
            [comps0, comps1] \<Rightarrow>
              (case formatter_address e comps0 of
                 Inl x \<Rightarrow> (st1, Thrown x)
               | Inr addr \<Rightarrow>
              (case BigNumber_from comps1 of
                 Inl x \<Rightarrow> (st1, Thrown x)
               | Inr n \<Rightarrow>
              (case hexZeroPad (toHexString n) 32 of
                 Inl x \<Rightarrow> (st1, Thrown x)
               | Inr tokenId \<Rightarrow>
                   avatar_owner p e st1 scheme selector owner comps0 addr tokenId)))
          | _ \<Rightarrow> (st1, Null)))"

fun avatar_loop ::
  "plugin \<Rightarrow> env \<Rightarrow> string \<Rightarrow> string \<Rightarrow> (string \<Rightarrow> (string \<times> string) option) list \<Rightarrow> run
     \<Rightarrow> run \<times> outcome" where
  \<comment> \<open>lines 93 to 211; leaving the loop leads to the \<open>return null\<close> of line 217\<close>
  "avatar_loop p e owner avatar_str [] st = (st, Null)"
| "avatar_loop p e owner avatar_str (m # ms) st =
     (case m avatar_str of
        None \<Rightarrow> avatar_loop p e owner avatar_str ms st
      | Some (g1, g2) \<Rightarrow>
          (let scheme = toLowerCase g1
           in if scheme = ''https'' then finish (push st ''url'' avatar_str) avatar_str
              else if scheme = ''data'' then finish (push st ''data'' avatar_str) avatar_str
              else if scheme = ''ipfs'' then
                (let st1 = push st ''ipfs'' avatar_str
                 in (case getIpfsLink avatar_str (ipfs p) of
                       Inl x \<Rightarrow> (st1, Thrown x)
                     | Inr u \<Rightarrow> finish st1 u))
              else if scheme = ''erc721'' \<or> scheme = ''erc1155'' then
                avatar_token p e st scheme owner avatar_str g2
              else avatar_loop p e owner avatar_str ms st))"

definition avatar_try :: "plugin \<Rightarrow> env \<Rightarrow> run \<Rightarrow> run \<times> outcome" where
  \<comment> \<open>the \<open>try\<close> block, lines 80 to 212\<close>
  "avatar_try p e st =
     (case info e of
        Inl x \<Rightarrow> (st, Thrown x)
      | Inr None \<Rightarrow> (st, Null)
      | Inr (Some acc) \<Rightarrow>
          (case owner_key acc of
             None \<Rightarrow> (st, Null)
           | Some owner \<Rightarrow>
               (if owner = [] then (st, Null)
                else (case records e ''profile.avatar'' of
                        Inl x \<Rightarrow> (st, Thrown x)
                      | Inr [] \<Rightarrow> (st, Null)
                      | Inr (avatar_str # rest) \<Rightarrow>
                          (if avatar_str = [] then (st, Null)
                           else avatar_loop p e owner avatar_str matchers st)))))"

definition init_run :: "env \<Rightarrow> run" where
  \<comment> \<open>line 78\<close>
  "init_run e =
     \<lparr>run_linkage = [\<lparr>type = ''account'', content = account e\<rparr>], run_calls = [],
      run_fetches = []\<rparr>"

definition avatar_run :: "plugin \<Rightarrow> env \<Rightarrow> run \<times> outcome" where
  "avatar_run p e = avatar_try p e (init_run e)"

definition avatar :: "plugin \<Rightarrow> env \<Rightarrow> error + resolved option" where
  \<comment> \<open>lines 77 to 218: the \<open>catch\<close> turns every exception of the \<open>try\<close> block into
      \<open>null\<close>\<close>
  "avatar p e =
     (case snd (avatar_run p e) of
        Value r \<Rightarrow> Inr (Some r)
      | Null \<Rightarrow> Inr None
      | Thrown x \<Rightarrow> Inr None)"

subsection \<open>The dynamic-value encoding of the specification\<close>

text \<open>
  Modelled from the spec: the repository has a decoder only, and the encoder below
  follows the words of the specification: a 32-byte offset word, a 32-byte length word
  at that offset, then the raw bytes at offset + 32. The offset of a single value is
  32, and the bytes are padded with zeros to a multiple of 32 bytes. It serves to state
  the round trip and to build the return buffers of the example contract.
\<close>

definition word_hex :: "nat \<Rightarrow> string" where
  \<comment> \<open>a 32-byte big-endian word, as 64 lower-case hex digits\<close>
  "word_hex n = replicate (64 - length (to_hex n)) CHR ''0'' @ to_hex n"

definition bytes_hex :: "nat list \<Rightarrow> string" where
  "bytes_hex bs = concat (map (\<lambda>b. [hex_digit (b div 16), hex_digit (b mod 16)]) bs)"

definition abi_encode_string :: "string \<Rightarrow> string" where
  "abi_encode_string s =
     ''0x'' @ word_hex 32 @ word_hex (length s) @ bytes_hex (map code s)
       @ replicate (2 * ((32 - length s mod 32) mod 32)) CHR ''0''"

subsection \<open>An example account, contract and metadata server\<close>

text \<open>
  The contract address is the one of the test data quoted in the source of the plugin;
  the owner's address and its checksum form are those of the repository's test
  \<open>checksum address\<close>. \<open>example_getAddress\<close> is \<open>getAddress\<close> on these addresses.
  The example contract answers \<open>ownerOf\<close> with the owner, \<open>tokenURI\<close> with
  \<open>ipfs://Qm123\<close>, \<open>balanceOf\<close> with \<open>bal\<close> and \<open>uri\<close> with a template.
\<close>

definition example_contract :: string where
  "example_contract = ''0x265385c7f4132228A0d54EB1A9e7460b91c0cC68''"

definition example_owner :: string where
  "example_owner = ''0x8ba1f109551bD432803012645Ac136ddd64DBA72''"

definition example_getAddress :: "string \<Rightarrow> error + string" where
  "example_getAddress v =
     (if v = example_contract then Inr example_contract
      else if v = example_owner \<or> v = toLowerCase example_owner then Inr example_owner
      else Inl InvalidAddress)"

definition example_metadata :: metadata where
  \<open>example_metadata =
     \<lparr>truthy = True, stringify = ''{"image":"ipfs://QmImg"}'', image = Some ''ipfs://QmImg''\<rparr>\<close>

definition example_call :: "nat \<Rightarrow> string \<Rightarrow> string \<Rightarrow> error + string" where
  "example_call bal to data =
     (if to \<noteq> example_contract then Inl TransportError
      else if take 10 data = ''0x6352211e''
        then Inr (''0x'' @ replicate 24 CHR ''0'' @ drop 2 (toLowerCase example_owner))
      else if take 10 data = ''0xc87b56dd'' then Inr (abi_encode_string ''ipfs://Qm123'')
      else if take 10 data = ''0x00fdd58e'' then Inr (''0x'' @ word_hex bal)
      else if take 10 data = ''0x0e89341c''
        then Inr (abi_encode_string ''https://example.com/{id}.json'')
      else Inl TransportError)"

definition example_env :: "string \<Rightarrow> string \<Rightarrow> nat \<Rightarrow> env" where
  \<comment> \<open>the account with owner key \<open>k\<close> and avatar record \<open>a\<close>; \<open>bal\<close> is the balance the
      contract reports\<close>
  "example_env k a bal =
     \<lparr>account = ''jeffx.bit'', info = Inr (Some \<lparr>owner_key = Some k\<rparr>),
      records = (\<lambda>key. if key = ''profile.avatar'' then Inr [a] else Inr []),
      getAddress = example_getAddress, perform_call = example_call bal,
      fetchJson = (\<lambda>u. Inr example_metadata)\<rparr>"

definition erc721_avatar :: string where
  "erc721_avatar = ''eip155:1/erc721:0x265385c7f4132228A0d54EB1A9e7460b91c0cC68/7''"

definition erc1155_avatar :: string where
  "erc1155_avatar = ''eip155:1/erc1155:0x265385c7f4132228A0d54EB1A9e7460b91c0cC68/5''"

subsection \<open>Complete results and the append-only linkage\<close>

text \<open>
  A result is complete when its linkage starts with the account step and ends with
  the step that produced the URL. \<open>extends st res\<close> says that a stage started in state
  \<open>st\<close> only appended to the linkage, and that a value it returns carries the whole
  linkage, ending with such a final step.
\<close>

definition final_step :: "link \<Rightarrow> string \<Rightarrow> bool" where
  "final_step l u =
     (type l = ''url'' \<and> content l = u \<or> type l = ''data'' \<and> content l = u \<or> type l = ''ipfs'')"

definition complete :: "env \<Rightarrow> resolved \<Rightarrow> bool" where
  "complete e r =
     (take 1 (linkage r) = [\<lparr>type = ''account'', content = account e\<rparr>]
      \<and> 2 \<le> length (linkage r) \<and> final_step (last (linkage r)) (url r))"

definition extends :: "run \<Rightarrow> run \<times> outcome \<Rightarrow> bool" where
  "extends st res =
     (take (length (run_linkage st)) (run_linkage (fst res)) = run_linkage st
      \<and> (case snd res of
            Value r \<Rightarrow> linkage r = run_linkage (fst res)
              \<and> length (run_linkage st) < length (linkage r)
              \<and> final_step (last (linkage r)) (url r)
          | Null \<Rightarrow> True
          | Thrown x \<Rightarrow> True))"

subsection \<open>Further example data\<close>

definition other_owner :: string where
  "other_owner = ''0x59724739940777947c56c4f2f2c9211cd5130fef''"

definition custom_gateway :: plugin where
  "custom_gateway = BitPluginAvatar (Some \<lparr>ipfsGateway = Some ''https://ipfs.example''\<rparr>)"

definition example_linkage :: "string \<Rightarrow> string \<Rightarrow> link list" where
  \<open>example_linkage murl u =
     [\<lparr>type = ''account'', content = ''jeffx.bit''\<rparr>,
      \<lparr>type = ''erc721'', content = erc721_avatar\<rparr>,
      \<lparr>type = ''owner'', content = example_owner\<rparr>,
      \<lparr>type = ''metadata-url-base'', content = ''ipfs://Qm123''\<rparr>,
      \<lparr>type = ''metadata-url'', content = murl\<rparr>,
      \<lparr>type = ''metadata'', content = ''{"image":"ipfs://QmImg"}''\<rparr>,
      \<lparr>type = ''url-ipfs'', content = ''ipfs://QmImg''\<rparr>,
      \<lparr>type = ''url'', content = u\<rparr>]\<close>

section \<open>Auxiliary lemmas\<close>

subsection \<open>Strings\<close>

text \<open>Lower-casing commutes with \<open>take\<close> and \<open>@\<close>; the prefix tests on numerals.\<close>

lemma length_toLowerCase: "length (toLowerCase s) = length s"
  by (simp add: toLowerCase_def)

lemma toLowerCase_append: "toLowerCase (a @ b) = toLowerCase a @ toLowerCase b"
  by (simp add: toLowerCase_def)

lemma toLowerCase_take: "toLowerCase (take n s) = take n (toLowerCase s)"
  by (simp add: toLowerCase_def take_map)

lemma startsWith_i_numeral:
  "length p = n \<Longrightarrow> startsWith_i p s = (toLowerCase (take n s) = p)"
  by (simp add: startsWith_i_def)

lemma sw_ipfs12: "startsWith_i ''ipfs://ipfs/'' s = (toLowerCase (take 12 s) = ''ipfs://ipfs/'')"
  by (rule startsWith_i_numeral) simp

lemma sw_ipfs7: "startsWith_i ''ipfs://'' s = (toLowerCase (take 7 s) = ''ipfs://'')"
  by (rule startsWith_i_numeral) simp

lemma sw_ipfs5: "startsWith_i ''ipfs/'' s = (toLowerCase (take 5 s) = ''ipfs/'')"
  by (rule startsWith_i_numeral) simp

lemma take12_split: "take 12 s = take 7 s @ take 5 (drop 7 s)"
  using take_add [of 7 5 s] by simp

lemma sw_ipfs12_split:
  "startsWith_i ''ipfs://ipfs/'' s = (startsWith_i ''ipfs://'' s \<and> startsWith_i ''ipfs/'' (drop 7 s))"
proof -
  have l: "length (toLowerCase (take 7 s)) = 7 \<Longrightarrow>
      (toLowerCase (take 7 s) @ toLowerCase (take 5 (drop 7 s)) = ''ipfs://'' @ ''ipfs/'')
      = (toLowerCase (take 7 s) = ''ipfs://'' \<and> toLowerCase (take 5 (drop 7 s)) = ''ipfs/'')"
    by (subst append_eq_append_conv) simp_all
  show ?thesis
  proof (cases "length s < 7")
    case True
    then have "length (toLowerCase (take 12 s)) < 7" "length (toLowerCase (take 7 s)) < 7"
      by (simp_all add: length_toLowerCase)
    then have "toLowerCase (take 12 s) \<noteq> ''ipfs://ipfs/''" "toLowerCase (take 7 s) \<noteq> ''ipfs://''"
      by auto
    then show ?thesis by (simp add: sw_ipfs12 sw_ipfs7)
  next
    case False
    then have "length (toLowerCase (take 7 s)) = 7" by (simp add: length_toLowerCase)
    from l [OF this] show ?thesis
      by (simp add: sw_ipfs12 sw_ipfs7 sw_ipfs5 take12_split toLowerCase_append)
  qed
qed

subsection \<open>Hex words and the round trip\<close>

text \<open>
  Printing a number in hex and reading it back, the shape of a 32-byte word, and the
  decoding of a buffer that holds an offset word, a length word and the bytes.
\<close>

lemma hex_digit_cases:
  "d < 16 \<Longrightarrow> d = 0 \<or> d = 1 \<or> d = 2 \<or> d = 3 \<or> d = 4 \<or> d = 5 \<or> d = 6 \<or> d = 7 \<or> d = 8
     \<or> d = 9 \<or> d = 10 \<or> d = 11 \<or> d = 12 \<or> d = 13 \<or> d = 14 \<or> d = (15::nat)"
  by arith

lemma is_hex_digit_hex_digit: "d < 16 \<Longrightarrow> is_hex_digit (hex_digit d)"
  using hex_digit_cases [of d]
  by (auto simp: hex_digit_def is_hex_digit_def is_digit_def code_def)

lemma hex_digit_val_hex_digit: "d < 16 \<Longrightarrow> hex_digit_val (hex_digit d) = d"
  using hex_digit_cases [of d]
  by (auto simp: hex_digit_def hex_digit_val_def is_digit_def code_def)

lemma hex_digit_not_upper: "d < 16 \<Longrightarrow> \<not> is_upper (hex_digit d)"
  using hex_digit_cases [of d]
  by (auto simp: hex_digit_def is_upper_def code_def)

lemma hex_val_snoc: "hex_val (ds @ [c]) = 16 * hex_val ds + hex_digit_val c"
  by (simp add: hex_val_def)

lemma hex_val_to_hex: "hex_val (to_hex n) = n"
proof (induction n rule: to_hex.induct)
  case (1 n)
  show ?case
  proof (cases "n < 16")
    case True
    then show ?thesis
      by (simp add: to_hex.simps [of n] hex_val_def hex_digit_val_hex_digit)
  next
    case False
    with 1 show ?thesis
      by (simp add: to_hex.simps [of n] hex_val_snoc hex_digit_val_hex_digit)
  qed
qed

lemma hex_val_zeros: "hex_val (replicate k CHR ''0'' @ ds) = hex_val ds"
proof (induction k)
  case 0
  show ?case by simp
next
  case (Suc k)
  have "hex_val (CHR ''0'' # replicate k CHR ''0'' @ ds) = hex_val (replicate k CHR ''0'' @ ds)"
    by (simp add: hex_val_def hex_digit_val_def is_digit_def code_def)
  with Suc show ?case by simp
qed

lemma hex_val_trim00: "hex_val (trim00 ds) = hex_val ds"
proof (induction ds rule: trim00.induct)
  case (1 a b c r)
  have z: "hex_val (CHR ''0'' # CHR ''0'' # c # r) = hex_val (c # r)"
    by (simp add: hex_val_def hex_digit_val_def is_digit_def code_def)
  from 1 z show ?case by auto
qed simp_all

lemma list_all_hex_to_hex: "list_all is_hex_digit (to_hex n)"
proof (induction n rule: to_hex.induct)
  case (1 n)
  show ?case
  proof (cases "n < 16")
    case True
    then show ?thesis by (simp add: to_hex.simps [of n] is_hex_digit_hex_digit)
  next
    case False
    with 1 show ?thesis by (simp add: to_hex.simps [of n] is_hex_digit_hex_digit)
  qed
qed

lemma length_to_hex: "0 < k \<Longrightarrow> n < 16 ^ k \<Longrightarrow> length (to_hex n) \<le> k"
proof (induction n arbitrary: k rule: to_hex.induct)
  case (1 n)
  show ?case
  proof (cases "n < 16")
    case True
    with 1 show ?thesis by (simp add: to_hex.simps [of n])
  next
    case False
    then obtain j where k: "k = Suc j" using 1(2) by (cases k) auto
    have "j \<noteq> 0" using False 1(3) k by (cases j) auto
    moreover have "n div 16 < 16 ^ j" using 1(3) k
      by (simp add: less_mult_imp_div_less mult.commute)
    ultimately have "length (to_hex (n div 16)) \<le> j" using 1(1) [of j] False by simp
    then show ?thesis using False k by (simp add: to_hex.simps [of n])
  qed
qed

lemma to_hex_nonempty: "to_hex n \<noteq> []"
  by (simp add: to_hex.simps [of n])

lemma length_word_hex: "n < 16 ^ 64 \<Longrightarrow> length (word_hex n) = 64"
  using length_to_hex [of 64 n] by (simp add: word_hex_def)

lemma is_hex_digit_zero: "is_hex_digit CHR ''0''"
  by (simp add: is_hex_digit_def is_digit_def code_def)

lemma list_all_hex_zeros: "list_all is_hex_digit (replicate k CHR ''0'')"
  by (induction k) (simp_all add: is_hex_digit_zero)

lemma list_all_hex_word_hex: "list_all is_hex_digit (word_hex n)"
  by (simp add: word_hex_def list_all_hex_to_hex list_all_hex_zeros)

lemma hex_val_word_hex: "hex_val (word_hex n) = n"
  by (simp add: word_hex_def hex_val_zeros hex_val_to_hex)

lemma length_bytes_hex: "length (bytes_hex bs) = 2 * length bs"
  by (induction bs) (simp_all add: bytes_hex_def)

lemma list_all_hex_bytes_hex: "list_all (\<lambda>b. b < 256) bs \<Longrightarrow> list_all is_hex_digit (bytes_hex bs)"
  by (induction bs) (simp_all add: bytes_hex_def is_hex_digit_hex_digit less_mult_imp_div_less)

lemma hex_pairs_bytes_hex: "list_all (\<lambda>b. b < 256) bs \<Longrightarrow> hex_pairs (bytes_hex bs @ []) = bs"
  by (induction bs) (simp_all add: bytes_hex_def hex_digit_val_hex_digit less_mult_imp_div_less)

lemma substring2_mid:
  "substring2 (a @ m @ z) (int (length a)) (int (length a + length m)) = m"
  by (simp add: substring2_def Let_def del: of_nat_add)

lemma hexDataSlice_mid:
  assumes "isHexString (''0x'' @ pre @ m @ post) None"
    and "even (length (pre @ m @ post))"
    and "length pre = 2 * k" and "length m = 2 * j"
  shows "hexDataSlice (''0x'' @ pre @ m @ post) (int k) (Some (int k + int j)) = Inr (''0x'' @ m)"
proof -
  have "substring2 ((''0x'' @ pre) @ m @ post) (int (length (''0x'' @ pre)))
          (int (length (''0x'' @ pre) + length m)) = m"
    by (rule substring2_mid)
  moreover have "int (length (''0x'' @ pre)) = 2 + 2 * int k" using assms(3) by simp
  moreover have "int (length (''0x'' @ pre) + length m) = 2 + 2 * (int k + int j)"
    using assms(3,4) by simp
  ultimately have "substring2 (''0x'' @ pre @ m @ post) (2 + 2 * int k) (2 + 2 * (int k + int j)) = m"
    by simp
  then show ?thesis using assms(1,2) by (simp add: hexDataSlice_def)
qed

lemma BigNumber_from_word:
  assumes "list_all is_hex_digit w" and "length w = 64"
  shows "BigNumber_from (''0x'' @ w) = Inr (BigNumber (''0x'' @ trim00 w))"
proof -
  have ne: "w \<noteq> []" using assms(2) by auto
  then have len: "\<not> length w \<le> 0" by simp
  show ?thesis
    using ne len assms
    by (simp add: BigNumber_from_def unsign_def toHex_def toHex_unsigned_def toLowerCase_def
        is_upper_def code_def)
qed

lemma toNumber_word:
  assumes "n < 2 ^ 53"
  shows "toNumber (BigNumber (''0x'' @ trim00 (word_hex n))) = Inr (int n)"
proof -
  have "bn_value (BigNumber (''0x'' @ trim00 (word_hex n))) = int n"
    by (simp add: bn_value_def hex_val_trim00 hex_val_word_hex)
  moreover have "int n < 2 ^ 53" using assms by (metis of_nat_less_iff of_nat_numeral of_nat_power)
  ultimately show ?thesis by (simp add: toNumber_def)
qed

lemma code_lt_256: "code c < 256"
  by (simp add: code_def)

lemma char_of_code: "map (char_of \<circ> code) s = s"
  by (induction s) (simp_all add: code_def)

lemma arrayify_bytes_hex:
  assumes "list_all (\<lambda>b. b < 256) bs"
  shows "arrayify (Some (''0x'' @ bytes_hex bs)) = Inr bs"
proof -
  have "isHexString (''0x'' @ bytes_hex bs) None"
    using assms by (simp add: isHexString_def list_all_hex_bytes_hex)
  moreover have "even (length (''0x'' @ bytes_hex bs))" by (simp add: length_bytes_hex)
  moreover have "hex_pairs (bytes_hex bs) = bs" using hex_pairs_bytes_hex [OF assms] by simp
  ultimately show ?thesis by (simp add: arrayify_def)
qed

lemma parseBytes_abi_encode_string:
  assumes "length s < 2 ^ 53"
  shows "parseBytes (abi_encode_string s) 0 = Inr (Some (''0x'' @ bytes_hex (map code s)))"
proof -
  define pad where "pad = replicate (2 * ((32 - length s mod 32) mod 32)) CHR ''0''"
  define w1 where "w1 = word_hex 32"
  define w2 where "w2 = word_hex (length s)"
  define body where "body = bytes_hex (map code s)"
  define buf where "buf = ''0x'' @ w1 @ w2 @ body @ pad"
  have buf: "abi_encode_string s = buf"
    by (simp add: abi_encode_string_def buf_def w1_def w2_def body_def pad_def)
  have lt: "length s < 16 ^ 64"
    using assms by (rule less_trans) simp
  have l1: "length w1 = 64" unfolding w1_def by (rule length_word_hex) simp
  have l2: "length w2 = 64" unfolding w2_def using lt by (rule length_word_hex)
  have lb: "length body = 2 * length s" by (simp add: body_def length_bytes_hex)
  have lp: "even (length pad)" by (simp add: pad_def)
  have hb: "list_all is_hex_digit body"
    unfolding body_def by (rule list_all_hex_bytes_hex) (simp add: list_all_iff code_lt_256)
  have hex: "isHexString buf None"
    by (simp add: isHexString_def buf_def w1_def w2_def list_all_hex_word_hex hb pad_def
        list_all_hex_zeros)
  have ev: "even (length (w1 @ w2 @ body @ pad))" using l1 l2 lb lp by simp
  have ne: "buf \<noteq> ''0x''" using l1 by (auto simp: buf_def)
  have s1: "hexDataSlice buf 0 (Some 32) = Inr (''0x'' @ w1)"
    using hexDataSlice_mid [of "[]" w1 "w2 @ body @ pad" 0 32] hex ev l1
    by (simp add: buf_def)
  have s2: "hexDataSlice buf 32 (Some 64) = Inr (''0x'' @ w2)"
    using hexDataSlice_mid [of w1 w2 "body @ pad" 32 32] hex ev l1 l2
    by (simp add: buf_def)
  have s3: "hexDataSlice buf 64 (Some (64 + int (length s))) = Inr (''0x'' @ body)"
    using hexDataSlice_mid [of "w1 @ w2" body pad 64 "length s"] hex ev l1 l2 lb
    by (simp add: buf_def)
  have b1: "BigNumber_from (''0x'' @ w1) = Inr (BigNumber (''0x'' @ trim00 w1))"
    using l1 by (intro BigNumber_from_word) (simp_all add: w1_def list_all_hex_word_hex)
  have b2: "BigNumber_from (''0x'' @ w2) = Inr (BigNumber (''0x'' @ trim00 w2))"
    using l2 by (intro BigNumber_from_word) (simp_all add: w2_def list_all_hex_word_hex)
  have n1: "toNumber (BigNumber (''0x'' @ trim00 w1)) = Inr 32"
    using toNumber_word [of 32] by (simp add: w1_def)
  have n2: "toNumber (BigNumber (''0x'' @ trim00 w2)) = Inr (int (length s))"
    unfolding w2_def using assms by (rule toNumber_word)
  show ?thesis
    unfolding buf body_def [symmetric]
    using ne s1 s2 s3 b1 b2 n1 n2 by (simp add: parseBytes_def)
qed

subsection \<open>Scheme dispatch\<close>

text \<open>
  The four patterns exclude each other on their first letter, so the loop over
  \<open>matchers\<close> reaches the branch of the one pattern that matches.
\<close>

lemma startsWith_i_take:
  assumes "startsWith_i p s" and "n \<le> length p"
  shows "toLowerCase (take n s) = take n p"
proof -
  have "take n (toLowerCase (take (length p) s)) = take n p"
    using assms(1) by (simp add: startsWith_i_def)
  then show ?thesis using assms(2) by (simp add: toLowerCase_take min_def)
qed

lemma startsWith_i_nonempty: "startsWith_i p s \<Longrightarrow> p \<noteq> [] \<Longrightarrow> s \<noteq> []"
  by (auto simp: startsWith_i_def toLowerCase_def)

lemma matcher_https_scheme:
  assumes "matcher_https a = Some (g1, g2)"
  shows "toLowerCase g1 = ''https'' \<and> a \<noteq> []"
proof -
  from assms have s: "startsWith_i ''https://'' a" and g: "g1 = take 5 a"
    by (auto simp: matcher_https_def split: if_splits)
  from startsWith_i_take [OF s, of 5] g startsWith_i_nonempty [OF s]
  show ?thesis by simp
qed

lemma matcher_data_scheme:
  assumes "matcher_data a = Some (g1, g2)"
  shows "toLowerCase g1 = ''data'' \<and> a \<noteq> [] \<and> matcher_https a = None"
proof -
  from assms have s: "startsWith_i ''data:'' a" and g: "g1 = take 4 a"
    by (auto simp: matcher_data_def split: if_splits)
  have "\<not> startsWith_i ''https://'' a"
  proof
    assume h: "startsWith_i ''https://'' a"
    from startsWith_i_take [OF s, of 1] startsWith_i_take [OF h, of 1] show False by simp
  qed
  then have "matcher_https a = None" by (simp add: matcher_https_def)
  with startsWith_i_take [OF s, of 4] g startsWith_i_nonempty [OF s]
  show ?thesis by simp
qed

lemma matcher_eip155_scheme:
  assumes "matcher_eip155 a = Some (g1, g2)"
  shows "a \<noteq> [] \<and> matcher_https a = None \<and> matcher_data a = None \<and> matcherIpfs a = None"
proof -
  from assms have s: "startsWith_i ''eip155:'' a"
    by (auto simp: matcher_eip155_def split: if_splits)
  have 1: "\<not> startsWith_i ''https://'' a"
  proof
    assume h: "startsWith_i ''https://'' a"
    from startsWith_i_take [OF s, of 1] startsWith_i_take [OF h, of 1] show False by simp
  qed
  have 2: "\<not> startsWith_i ''data:'' a"
  proof
    assume h: "startsWith_i ''data:'' a"
    from startsWith_i_take [OF s, of 1] startsWith_i_take [OF h, of 1] show False by simp
  qed
  have 3: "\<not> startsWith_i ''ipfs://'' a"
  proof
    assume h: "startsWith_i ''ipfs://'' a"
    from startsWith_i_take [OF s, of 1] startsWith_i_take [OF h, of 1] show False by simp
  qed
  from 1 2 3 startsWith_i_nonempty [OF s] show ?thesis
    by (simp add: matcher_https_def matcher_data_def matcherIpfs_def)
qed

lemma avatar_run_loop:
  assumes "info e = Inr (Some acc)" and "owner_key acc = Some k" and "k \<noteq> []"
    and "records e ''profile.avatar'' = Inr (a # rest)" and "a \<noteq> []"
  shows "avatar_run p e = avatar_loop p e k a matchers (init_run e)"
  using assms by (simp add: avatar_run_def avatar_try_def)

lemma avatar_loop_https:
  assumes "matcher_https a = Some (g1, g2)"
  shows "avatar_loop p e k a matchers st = finish (push st ''url'' a) a"
  using assms matcher_https_scheme [OF assms] by (simp add: matchers_def)

lemma avatar_loop_data:
  assumes "matcher_data a = Some (g1, g2)"
  shows "avatar_loop p e k a matchers st = finish (push st ''data'' a) a"
  using assms matcher_data_scheme [OF assms] by (simp add: matchers_def)

lemma avatar_loop_token:
  assumes "matcher_eip155 a = Some (g1, g2)"
    and "toLowerCase g1 = ''erc721'' \<or> toLowerCase g1 = ''erc1155''"
  shows "avatar_loop p e k a matchers st = avatar_token p e st (toLowerCase g1) k a g2"
  using assms matcher_eip155_scheme [OF assms(1)] by (auto simp: matchers_def)

subsection \<open>The linkage is append-only and a returned value is complete\<close>

text \<open>
  Every stage keeps the steps it was given and only appends; a stage that returns a
  value returns the linkage of its final state. The proof follows the stages from the
  last one (the image) back to the whole run.
\<close>

lemma run_linkage_push: "run_linkage (push st t c) = run_linkage st @ [\<lparr>type = t, content = c\<rparr>]"
  by (simp add: push_def)

lemma extends_push: "extends (push st t c) res \<Longrightarrow> extends st res"
proof -
  assume a: "extends (push st t c) res"
  then have "take (Suc (length (run_linkage st))) (run_linkage (fst res))
      = run_linkage st @ [\<lparr>type = t, content = c\<rparr>]"
    by (simp add: extends_def run_linkage_push)
  then have "take (length (run_linkage st)) (take (Suc (length (run_linkage st))) (run_linkage (fst res)))
      = run_linkage st" by simp
  then have "take (length (run_linkage st)) (run_linkage (fst res)) = run_linkage st"
    by (simp add: min_def)
  with a show ?thesis
    by (auto simp: extends_def run_linkage_push split: outcome.splits)
qed

lemma extends_null: "extends st (st, Null)" and extends_thrown: "extends st (st, Thrown x)"
  by (simp_all add: extends_def)

lemma extends_finish_push:
  "final_step \<lparr>type = t, content = c\<rparr> u \<Longrightarrow> extends st (finish (push st t c) u)"
  by (simp add: extends_def finish_def run_linkage_push)

lemma extends_via:
  assumes "run_linkage st' = run_linkage st @ ext" and "extends st' res"
  shows "extends st res"
proof -
  from assms have "take (length (run_linkage st) + length ext) (run_linkage (fst res))
      = run_linkage st @ ext"
    by (simp add: extends_def)
  then have "take (length (run_linkage st))
      (take (length (run_linkage st) + length ext) (run_linkage (fst res))) = run_linkage st"
    by simp
  then have "take (length (run_linkage st)) (run_linkage (fst res)) = run_linkage st"
    by (simp add: min_def)
  with assms show ?thesis
    by (auto simp: extends_def split: outcome.splits)
qed

lemma extends_linkage_eq:
  "run_linkage st' = run_linkage st \<Longrightarrow> extends st' res \<Longrightarrow> extends st res"
  using extends_via [of st' st "[]" res] by simp

lemma extends_image: "extends st (avatar_image st u)"
proof -
  have a: "extends st (finish (push st ''url'' u) u)"
    by (rule extends_finish_push) (simp add: final_step_def)
  have b: "extends st (push st ''url-ipfs'' u, Thrown x)" for x
    by (rule extends_push [of _ "''url-ipfs''" u]) (rule extends_thrown)
  have c: "extends st (finish (push (push st ''url-ipfs'' u) ''url'' v) v)" for v
    by (rule extends_push [of _ "''url-ipfs''" u], rule extends_finish_push)
      (simp add: final_step_def)
  show ?thesis
    using a b c
    by (auto simp: avatar_image_def extends_null Let_def split: option.splits sum.splits)
qed

lemma extends_fetch: "extends st (avatar_fetch e st u)"
proof -
  have l: "run_linkage ((push st t c)\<lparr>run_fetches := fs\<rparr>) = run_linkage st @ [\<lparr>type = t, content = c\<rparr>]"
    for fs t c by (simp add: run_linkage_push)
  have m: "extends ((push st t c)\<lparr>run_fetches := fs\<rparr>) res \<Longrightarrow> extends st res" for fs res t c
    by (rule extends_via [OF l])
  have a: "extends st ((push st t c)\<lparr>run_fetches := fs\<rparr>, Null)" for fs t c
    by (rule m) (rule extends_null)
  have a': "extends st ((push st t c)\<lparr>run_fetches := fs\<rparr>, Thrown x)" for fs x t c
    by (rule m) (rule extends_thrown)
  have b: "extends st (push ((push st t c)\<lparr>run_fetches := fs\<rparr>) t' c', Null)" for fs t c t' c'
    by (rule m, rule extends_push, rule extends_null)
  have c: "extends st (avatar_image (push ((push st t c)\<lparr>run_fetches := fs\<rparr>) t' c') i)"
    for fs t c t' c' i
    by (rule m, rule extends_push, rule extends_image)
  show ?thesis
    using a a' b c
    by (auto simp: avatar_fetch_def do_fetch_def Let_def split: sum.splits option.splits)
qed

lemma extends_metadata: "extends st (avatar_metadata p e st u)"
  by (auto simp: avatar_metadata_def extends_fetch extends_thrown split: sum.splits)

lemma extends_tokenuri: "extends st (avatar_tokenuri p e st scheme sel c0 tid)"
proof -
  have a: "extends st' (st', Null)" "extends st' (st', Thrown x)" for st' x
    by (simp_all add: extends_null extends_thrown)
  have l: "run_linkage (st\<lparr>run_calls := cs\<rparr>) = run_linkage st" for cs by simp
  have m: "extends (st\<lparr>run_calls := cs\<rparr>) res \<Longrightarrow> extends st res" for cs res
    by (rule extends_linkage_eq [OF l])
  have b: "extends st (avatar_metadata p e (push (st\<lparr>run_calls := cs\<rparr>) t c) u)" for cs t c u
    by (rule m, rule extends_push, rule extends_metadata)
  have c: "extends st (avatar_metadata p e (push (push (st\<lparr>run_calls := cs\<rparr>) t c) t' c') u)"
    for cs t c u t' c'
    by (rule m, rule extends_push, rule extends_push, rule extends_metadata)
  have d: "extends st (st\<lparr>run_calls := cs\<rparr>, Null)" for cs
    by (rule m) (rule extends_null)
  have d': "extends st (st\<lparr>run_calls := cs\<rparr>, Thrown x)" for cs x
    by (rule m) (rule extends_thrown)
  show ?thesis
    using a b c d d'
    by (auto simp: avatar_tokenuri_def do_call_def Let_def split: sum.splits option.splits)
qed

lemma extends_owner: "extends st (avatar_owner p e st scheme sel k c0 addr tid)"
proof -
  have l: "run_linkage (st\<lparr>run_calls := cs\<rparr>) = run_linkage st" for cs by simp
  have m: "extends (st\<lparr>run_calls := cs\<rparr>) res \<Longrightarrow> extends st res" for cs res
    by (rule extends_linkage_eq [OF l])
  have a: "extends st (st, Thrown x)" for x by (rule extends_thrown)
  have d: "extends st (st\<lparr>run_calls := cs\<rparr>, Null)" for cs
    by (rule m) (rule extends_null)
  have d': "extends st (st\<lparr>run_calls := cs\<rparr>, Thrown x)" for cs x
    by (rule m) (rule extends_thrown)
  have b: "extends st (avatar_tokenuri p e (push (st\<lparr>run_calls := cs\<rparr>) t c) scheme sel c0 tid)"
    for cs t c
    by (rule m, rule extends_push, rule extends_tokenuri)
  show ?thesis
    using a b d d' extends_tokenuri [of st p e scheme sel c0 tid]
    by (auto simp: avatar_owner_def do_call_def Let_def split: sum.splits option.splits)
qed

lemma extends_token: "extends st (avatar_token p e st scheme k a g2)"
proof -
  have a: "extends st (push st t c, Null)" for t c
    by (rule extends_push) (rule extends_null)
  have a': "extends st (push st t c, Thrown x)" for t c x
    by (rule extends_push) (rule extends_thrown)
  have b: "extends st (avatar_owner p e (push st t c) scheme sel k c0 addr tid)"
    for t c sel c0 addr tid
    by (rule extends_push) (rule extends_owner)
  show ?thesis
    using a a' b
    by (auto simp: avatar_token_def Let_def split: sum.splits list.splits)
qed

lemma extends_loop: "extends st (avatar_loop p e k a ms st)"
proof (induction ms)
  case Nil
  show ?case by (simp add: extends_null)
next
  case (Cons m ms)
  have f1: "extends st (finish (push st ''url'' a) a)"
    by (rule extends_finish_push) (simp add: final_step_def)
  have f2: "extends st (finish (push st ''data'' a) a)"
    by (rule extends_finish_push) (simp add: final_step_def)
  have f3: "extends st (finish (push st ''ipfs'' a) u)" for u
    by (simp add: extends_def finish_def run_linkage_push final_step_def)
  have f4: "extends st (push st ''ipfs'' a, Thrown x)" for x
    by (rule extends_push) (rule extends_thrown)
  show ?case
    using Cons f1 f2 f3 f4 extends_token [of st p e _ k a]
    by (auto simp: Let_def split: option.splits sum.splits)
qed

lemma extends_run: "extends (init_run e) (avatar_run p e)"
  by (auto simp: avatar_run_def avatar_try_def extends_null extends_thrown extends_loop
      split: sum.splits option.splits list.splits)

lemma avatar_value_complete:
  assumes "snd (avatar_run p e) = Value r"
  shows "linkage r = run_linkage (fst (avatar_run p e)) \<and> complete e r"
proof -
  from extends_run [of e p] assms
  have "take 1 (run_linkage (fst (avatar_run p e))) = [\<lparr>type = ''account'', content = account e\<rparr>]
      \<and> linkage r = run_linkage (fst (avatar_run p e))
      \<and> 1 < length (linkage r) \<and> final_step (last (linkage r)) (url r)"
    by (auto simp: extends_def init_run_def)
  then show ?thesis by (clarsimp simp: complete_def)
qed

subsection \<open>Call data and the stages of the token branch\<close>

text \<open>
  The data of the four contract calls: a selector followed by 32-byte words, in lower
  case as \<open>hexConcat\<close> produces it. Then one equation per stage of the token branch,
  under the hypotheses that let the stage go on.
\<close>

lemma isHexString_length: "isHexString v None \<Longrightarrow> 2 \<le> length v"
proof -
  assume "isHexString v None"
  then have "length (take 2 v) = 2" by (simp add: isHexString_def)
  then show ?thesis by (simp add: min_def split: if_splits)
qed

lemma hexZeroPad_shape:
  assumes "hexZeroPad v n = Inr t"
  shows "isHexString t None" and "length t = 2 * n + 2"
    and "t = ''0x'' @ replicate (2 * n + 2 - length v) CHR ''0'' @ drop 2 v"
proof -
  from assms have h: "isHexString v None" and l: "length v \<le> 2 * n + 2"
    and t: "t = ''0x'' @ replicate (2 * n + 2 - length v) CHR ''0'' @ drop 2 v"
    by (auto simp: hexZeroPad_def split: if_splits)
  from isHexString_length [OF h] l show "length t = 2 * n + 2" by (simp add: t)
  show "isHexString t None"
    using h by (simp add: t isHexString_def list_all_hex_zeros)
  show "t = ''0x'' @ replicate (2 * n + 2 - length v) CHR ''0'' @ drop 2 v" by (rule t)
qed

lemma hexlify_hexZeroPad:
  assumes "hexZeroPad v n = Inr t"
  shows "hexlify t = Inr (toLowerCase t)"
proof -
  have "even (length t)" using hexZeroPad_shape(2) [OF assms] by simp
  with hexZeroPad_shape(1) [OF assms] show ?thesis by (simp add: hexlify_def)
qed

lemma hexConcat_two:
  "hexlify a = Inr a' \<Longrightarrow> hexlify b = Inr b' \<Longrightarrow> hexConcat [a, b] = Inr (''0x'' @ drop 2 a' @ drop 2 b')"
  by (simp add: substring1_def)

lemma hexConcat_three:
  "hexlify a = Inr a' \<Longrightarrow> hexlify b = Inr b' \<Longrightarrow> hexlify c = Inr c' \<Longrightarrow>
   hexConcat [a, b, c] = Inr (''0x'' @ drop 2 a' @ drop 2 b' @ drop 2 c')"
  by (simp add: substring1_def)

lemma hexlify_ownerOf: "hexlify ''0x6352211e'' = Inr ''0x6352211e''" by code_simp

lemma hexlify_tokenURI: "hexlify ''0xc87b56dd'' = Inr ''0xc87b56dd''" by code_simp

lemma hexlify_balanceOf: "hexlify ''0x00fdd58e'' = Inr ''0x00fdd58e''" by code_simp

lemma hexlify_uri: "hexlify ''0x0e89341c'' = Inr ''0x0e89341c''" by code_simp

lemma ownerOf_data:
  "hexZeroPad v 32 = Inr t \<Longrightarrow> hexConcat [''0x6352211e'', t] = Inr (''0x6352211e'' @ drop 2 (toLowerCase t))"
  using hexConcat_two [OF hexlify_ownerOf hexlify_hexZeroPad] by simp

lemma tokenURI_data:
  "hexZeroPad v 32 = Inr t \<Longrightarrow> hexConcat [''0xc87b56dd'', t] = Inr (''0xc87b56dd'' @ drop 2 (toLowerCase t))"
  using hexConcat_two [OF hexlify_tokenURI hexlify_hexZeroPad] by simp

lemma uri_data:
  "hexZeroPad v 32 = Inr t \<Longrightarrow> hexConcat [''0x0e89341c'', t] = Inr (''0x0e89341c'' @ drop 2 (toLowerCase t))"
  using hexConcat_two [OF hexlify_uri hexlify_hexZeroPad] by simp

lemma balanceOf_data:
  "hexZeroPad k 32 = Inr padded \<Longrightarrow> hexZeroPad v 32 = Inr t \<Longrightarrow>
   hexConcat [''0x00fdd58e'', padded, t]
     = Inr (''0x00fdd58e'' @ drop 2 (toLowerCase padded) @ drop 2 (toLowerCase t))"
  using hexConcat_three [OF hexlify_balanceOf hexlify_hexZeroPad hexlify_hexZeroPad] by simp

lemma avatar_run_token:
  assumes "info e = Inr (Some acc)" and "owner_key acc = Some k" and "k \<noteq> []"
    and "records e ''profile.avatar'' = Inr (a # rest)"
    and "matcher_eip155 a = Some (g1, g2)"
    and "toLowerCase g1 = ''erc721'' \<or> toLowerCase g1 = ''erc1155''"
  shows "avatar_run p e = avatar_token p e (init_run e) (toLowerCase g1) k a g2"
  using avatar_run_loop [OF assms(1-4)] matcher_eip155_scheme [OF assms(5)]
    avatar_loop_token [OF assms(5,6)] by simp

lemma avatar_token_owner:
  assumes "split_on CHR ''/'' g2 = [c0, c1]" and "getAddress e c0 = Inr addr"
    and "BigNumber_from c1 = Inr n" and "hexZeroPad (toHexString n) 32 = Inr tokenId"
  shows "avatar_token p e st scheme k a g2
    = avatar_owner p e (push st scheme a) scheme
        (if scheme = ''erc721'' then ''0xc87b56dd'' else ''0x0e89341c'') k c0 addr tokenId"
  using assms by (simp add: avatar_token_def formatter_address_def Let_def)

lemma avatar_owner_erc721:
  assumes "hexZeroPad v 32 = Inr tokenId"
    and "provider_call e addr (''0x6352211e'' @ drop 2 (toLowerCase tokenId)) = Inr ret"
    and "formatter_callAddress e ret = Inr (Some k)"
  shows "avatar_owner p e st ''erc721'' sel k c0 addr tokenId
    = avatar_tokenuri p e
        (push (st\<lparr>run_calls := run_calls st
                 @ [(addr, ''0x6352211e'' @ drop 2 (toLowerCase tokenId))]\<rparr>) ''owner'' k)
        ''erc721'' sel c0 tokenId"
  using assms(2,3) ownerOf_data [OF assms(1)]
  by (simp add: avatar_owner_def do_call_def)

lemma avatar_owner_erc1155:
  assumes "hexZeroPad v 32 = Inr tokenId" and "hexZeroPad k 32 = Inr padded"
    and "provider_call e addr
           (''0x00fdd58e'' @ drop 2 (toLowerCase padded) @ drop 2 (toLowerCase tokenId)) = Inr ret"
    and "BigNumber_from ret = Inr b"
  shows "avatar_owner p e st ''erc1155'' sel k c0 addr tokenId
    = (let st1 = st\<lparr>run_calls := run_calls st
                 @ [(addr, ''0x00fdd58e'' @ drop 2 (toLowerCase padded)
                            @ drop 2 (toLowerCase tokenId))]\<rparr>
       in if isZero b then (st1, Null)
          else avatar_tokenuri p e (push st1 ''balance'' (toString b)) ''erc1155'' sel c0 tokenId)"
  using assms(2,3,4) balanceOf_data [OF assms(2) assms(1)]
  by (simp add: avatar_owner_def do_call_def)

lemma avatar_tokenuri_step:
  assumes "hexZeroPad v 32 = Inr tokenId" and "getAddress e c0 = Inr addr"
    and "sel = ''0xc87b56dd'' \<or> sel = ''0x0e89341c''"
    and "provider_call e addr (sel @ drop 2 (toLowerCase tokenId)) = Inr ret"
    and "parseString ret 0 = Inr (Some uri)"
  shows "avatar_tokenuri p e st scheme sel c0 tokenId
    = (let st2 = push (st\<lparr>run_calls := run_calls st
                 @ [(addr, sel @ drop 2 (toLowerCase tokenId))]\<rparr>) ''metadata-url-base'' uri
       in if scheme = ''erc1155''
          then avatar_metadata p e
                 (push st2 ''metadata-url-expanded''
                    (replace_first ''{id}'' (drop 2 tokenId) uri))
                 (replace_first ''{id}'' (drop 2 tokenId) uri)
          else avatar_metadata p e st2 uri)"
proof -
  have "hexConcat [sel, tokenId] = Inr (sel @ drop 2 (toLowerCase tokenId))"
    using assms(3) tokenURI_data [OF assms(1)] uri_data [OF assms(1)] by auto
  then show ?thesis
    using assms(2,4,5)
    by (simp add: avatar_tokenuri_def do_call_def formatter_address_def Let_def substring1_def)
qed

lemma startsWith_i_ipfs_colon:
  assumes "startsWith_i ''ipfs://'' u"
  shows "startsWith_i ''ipfs:'' u"
proof -
  have "toLowerCase (take 5 u) = ''ipfs:''"
    using startsWith_i_take [OF assms, of 5] by simp
  then show ?thesis by (simp add: startsWith_i_numeral [of "''ipfs:''" 5])
qed

lemma getIpfsLink_defined:
  assumes "startsWith_i ''ipfs://'' u"
  shows "\<exists>r. getIpfsLink u g = Inr (g @ ''/ipfs/'' @ r)"
  using assms by (simp add: getIpfsLink_def)

lemma avatar_metadata_ipfs:
  assumes "startsWith_i ''ipfs://'' uri" and "getIpfsLink uri (ipfs p) = Inr murl"
  shows "avatar_metadata p e st uri = avatar_fetch e st murl"
  using assms startsWith_i_ipfs_colon [OF assms(1)] by (simp add: avatar_metadata_def)

lemma avatar_fetch_image:
  assumes "fetchJson e murl = Inr m" and "truthy m" and "image m = Some img"
  shows "avatar_fetch e st murl
    = avatar_image
        (push ((push st ''metadata-url'' murl)
                 \<lparr>run_fetches := run_fetches (push st ''metadata-url'' murl) @ [murl]\<rparr>)
           ''metadata'' (stringify m)) img"
  using assms by (simp add: avatar_fetch_def do_fetch_def Let_def)

lemma matcherIpfs_not_direct:
  assumes "matcherIpfs img = Some (g1, g2)"
  shows "\<not> startsWith_i ''https://'' img \<and> \<not> startsWith_i ''data:'' img
    \<and> startsWith_i ''ipfs://'' img"
proof -
  from assms have s: "startsWith_i ''ipfs://'' img"
    by (auto simp: matcherIpfs_def split: if_splits)
  have 1: "\<not> startsWith_i ''https://'' img"
  proof
    assume h: "startsWith_i ''https://'' img"
    from startsWith_i_take [OF s, of 1] startsWith_i_take [OF h, of 1] show False by simp
  qed
  have 2: "\<not> startsWith_i ''data:'' img"
  proof
    assume h: "startsWith_i ''data:'' img"
    from startsWith_i_take [OF s, of 1] startsWith_i_take [OF h, of 1] show False by simp
  qed
  from 1 2 s show ?thesis by simp
qed

lemma avatar_image_ipfs:
  assumes "matcherIpfs img = Some (g1, g2)" and "getIpfsLink img default_gateway = Inr u"
  shows "avatar_image st img = finish (push (push st ''url-ipfs'' img) ''url'' u) u"
  using assms matcherIpfs_not_direct [OF assms(1)] by (simp add: avatar_image_def)

lemma toLowerCase_id: "list_all (\<lambda>c. \<not> is_upper c) s \<Longrightarrow> toLowerCase s = s"
  by (induction s) (simp_all add: toLowerCase_def)

lemma to_hex_not_upper: "list_all (\<lambda>c. \<not> is_upper c) (to_hex n)"
proof (induction n rule: to_hex.induct)
  case (1 n)
  show ?case
  proof (cases "n < 16")
    case True
    then show ?thesis using hex_digit_not_upper [of n] by (simp add: to_hex.simps [of n])
  next
    case False
    with 1 hex_digit_not_upper [of "n mod 16"] show ?thesis by (simp add: to_hex.simps [of n])
  qed
qed

lemma toLowerCase_word_hex: "toLowerCase (word_hex n) = word_hex n"
proof -
  have "list_all (\<lambda>c. \<not> is_upper c) (replicate k CHR ''0'')" for k
    by (induction k) (simp_all add: is_upper_def code_def)
  then show ?thesis
    by (intro toLowerCase_id) (simp add: word_hex_def to_hex_not_upper)
qed

lemma hd_to_hex: "0 < n \<Longrightarrow> hd (to_hex n) \<noteq> CHR ''0''"
proof (induction n rule: to_hex.induct)
  case (1 n)
  show ?case
  proof (cases "n < 16")
    case True
    with 1(2) hex_digit_cases [of n] show ?thesis
      by (auto simp: to_hex.simps [of n] hex_digit_def)
  next
    case False
    then have "0 < n div 16" by (simp add: div_greater_zero_iff)
    with 1(1) False have "hd (to_hex (n div 16)) \<noteq> CHR ''0''" by simp
    then show ?thesis using False to_hex_nonempty [of "n div 16"]
      by (simp add: to_hex.simps [of n])
  qed
qed

lemma length_to_hex_small: "n < 16 \<Longrightarrow> length (to_hex n) = 1"
  by (simp add: to_hex.simps [of n])

lemma trim00_id: "hd ds \<noteq> CHR ''0'' \<or> hd (tl ds) \<noteq> CHR ''0'' \<or> length ds \<le> 2 \<Longrightarrow> trim00 ds = ds"
  by (cases ds rule: trim00.cases) auto

lemma x_not_hex: "\<not> is_hex_digit CHR ''x''" and minus_not_hex: "\<not> is_hex_digit CHR ''-''"
  by (simp_all add: is_hex_digit_def is_digit_def code_def)

lemma hex_take2: "list_all is_hex_digit s \<Longrightarrow> take 2 s \<noteq> ''0x''"
proof
  assume a: "list_all is_hex_digit s" and b: "take 2 s = ''0x''"
  then have "CHR ''x'' \<in> set (take 2 s)" by simp
  then have "CHR ''x'' \<in> set s" by (rule in_set_takeD)
  with a x_not_hex show False by (auto simp: list_all_iff)
qed

lemma hex_take1: "list_all is_hex_digit s \<Longrightarrow> take 1 s \<noteq> ''-''"
proof
  assume a: "list_all is_hex_digit s" and b: "take 1 s = ''-''"
  then have "CHR ''-'' \<in> set (take 1 s)" by simp
  then have "CHR ''-'' \<in> set s" by (rule in_set_takeD)
  with a minus_not_hex show False by (auto simp: list_all_iff)
qed

lemma is_digit_hex: "is_digit c \<Longrightarrow> is_hex_digit c"
  by (simp add: is_hex_digit_def)

lemma digits_hex: "list_all is_digit s \<Longrightarrow> list_all is_hex_digit s"
  by (induction s) (simp_all add: is_digit_hex)

lemma is_digit_lower: "is_digit c \<Longrightarrow> \<not> is_upper c"
  by (simp add: is_digit_def is_upper_def)

lemma digits_toLowerCase: "list_all is_digit s \<Longrightarrow> toLowerCase s = s"
  by (induction s) (simp_all add: toLowerCase_def is_digit_lower)

lemma toHex_to_hex:
  "toHex (to_hex v) = Inr (''0x'' @ (if odd (length (to_hex v)) then CHR ''0'' # to_hex v else to_hex v))"
proof -
  let ?t = "to_hex v"
  let ?pe = "if odd (length ?t) then CHR ''0'' # ?t else ?t"
  have h: "list_all is_hex_digit ?t" by (rule list_all_hex_to_hex)
  have ne: "?t \<noteq> []" by (rule to_hex_nonempty)
  have tr: "trim00 ?pe = ?pe"
  proof (cases "v < 16")
    case True
    then show ?thesis by (intro trim00_id) (simp add: length_to_hex_small)
  next
    case False
    then have "hd ?t \<noteq> CHR ''0''" by (intro hd_to_hex) simp
    then show ?thesis by (intro trim00_id) simp
  qed
  have "toHex_unsigned ?t = ''0x'' @ trim00 ?pe"
    using hex_take2 [OF h] ne by (simp add: toHex_unsigned_def)
  then show ?thesis using hex_take1 [OF h] tr by (simp add: toHex_def)
qed

lemma list_all_take: "list_all P xs \<Longrightarrow> list_all P (take n xs)"
  by (metis append_take_drop_id list_all_append)

lemma tokenId_decimal:
  assumes "c1 \<noteq> []" and "list_all is_digit c1" and "dec_val c1 < 16 ^ 64"
  shows "\<exists>n tokenId. BigNumber_from c1 = Inr n
    \<and> hexZeroPad (toHexString n) 32 = Inr tokenId \<and> tokenId = ''0x'' @ word_hex (dec_val c1)"
proof -
  let ?v = "dec_val c1"
  let ?t = "to_hex ?v"
  let ?pe = "if odd (length ?t) then CHR ''0'' # ?t else ?t"
  have hx: "list_all is_hex_digit c1" using assms(2) by (rule digits_hex)
  have u: "unsign c1 = c1" using hex_take1 [OF hx] by (simp add: unsign_def)
  have n2: "toLowerCase (take 2 c1) \<noteq> ''0x''"
  proof -
    have "list_all is_digit (take 2 c1)" using assms(2) by (rule list_all_take)
    then have "toLowerCase (take 2 c1) = take 2 c1" by (rule digits_toLowerCase)
    with hex_take2 [OF hx] show ?thesis by simp
  qed
  have b: "BigNumber_from c1 = Inr (BigNumber (''0x'' @ ?pe))"
    using u n2 assms(1,2) hex_take1 [OF hx]
    by (simp add: BigNumber_from_def toHex_to_hex)
  have len: "length ?t \<le> 64" by (rule length_to_hex [OF _ assms(3)]) simp
  have odd64: "n < 64" if "odd n" and "n \<le> 64" for n :: nat
    using that by presburger
  have lpe: "length ?pe \<le> 64"
  proof (cases "odd (length ?t)")
    case True
    from odd64 [OF True len] True show ?thesis by simp
  next
    case False
    with len show ?thesis by simp
  qed
  have hpe: "list_all is_hex_digit ?pe"
    by (simp add: list_all_hex_to_hex is_hex_digit_zero)
  have pad: "replicate (64 - length ?pe) CHR ''0'' @ ?pe = word_hex ?v"
  proof (cases "odd (length ?t)")
    case True
    then have "length ?t < 64" using len by (rule odd64)
    then have "64 - length ?t = Suc (64 - Suc (length ?t))" by simp
    then have "replicate (64 - length ?t) CHR ''0''
        = replicate (64 - Suc (length ?t)) CHR ''0'' @ [CHR ''0'']"
      by (simp add: replicate_append_same)
    then show ?thesis using True by (simp add: word_hex_def)
  next
    case False
    then show ?thesis by (simp add: word_hex_def)
  qed
  have "hexZeroPad (''0x'' @ ?pe) 32 = Inr (''0x'' @ replicate (64 - length ?pe) CHR ''0'' @ ?pe)"
    using lpe hpe by (simp add: hexZeroPad_def isHexString_def)
  then have "hexZeroPad (toHexString (BigNumber (''0x'' @ ?pe))) 32 = Inr (''0x'' @ word_hex ?v)"
    using pad by (simp add: toHexString_def)
  with b show ?thesis by blast
qed

lemma replace_first_found:
  "CHR ''{'' \<notin> set pre \<Longrightarrow> replace_first ''{id}'' h (pre @ ''{id}'' @ post) = pre @ h @ post"
  by (induction pre) auto

lemma example_env_simps:
  "account (example_env k a bal) = ''jeffx.bit''"
  "info (example_env k a bal) = Inr (Some \<lparr>owner_key = Some k\<rparr>)"
  "records (example_env k a bal) ''profile.avatar'' = Inr [a]"
  "getAddress (example_env k a bal) = example_getAddress"
  "fetchJson (example_env k a bal) u = Inr example_metadata"
  by (simp_all add: example_env_def)

text \<open>
  The ERC-721 check: when the address decoded from \<open>ownerOf\<close> is not the owner key,
  character for character, the run ends with \<open>null\<close> after the steps \<open>account\<close> and
  \<open>erc721\<close> and after the one call of \<open>ownerOf\<close>; \<open>tokenURI\<close> is not called.
\<close>

lemma avatar_erc721_owner_mismatch:
  assumes "info e = Inr (Some acc)" and "owner_key acc = Some k" and "k \<noteq> []"
    and "records e ''profile.avatar'' = Inr (a # rest)"
    and "matcher_eip155 a = Some (g1, g2)" and "toLowerCase g1 = ''erc721''"
    and "split_on CHR ''/'' g2 = [c0, c1]" and "getAddress e c0 = Inr addr"
    and "BigNumber_from c1 = Inr n" and "hexZeroPad (toHexString n) 32 = Inr tokenId"
    and "provider_call e addr (''0x6352211e'' @ drop 2 (toLowerCase tokenId)) = Inr ret"
    and "formatter_callAddress e ret = Inr tokenOwner" and "tokenOwner \<noteq> Some k"
  shows "avatar p e = Inr None
    \<and> run_linkage (fst (avatar_run p e))
        = [\<lparr>type = ''account'', content = account e\<rparr>, \<lparr>type = ''erc721'', content = a\<rparr>]
    \<and> run_calls (fst (avatar_run p e))
        = [(addr, ''0x6352211e'' @ drop 2 (toLowerCase tokenId))]"
proof -
  have "avatar_run p e = avatar_token p e (init_run e) ''erc721'' k a g2"
    using avatar_run_token [OF assms(1-5)] assms(6) by simp
  also have "\<dots> = avatar_owner p e (push (init_run e) ''erc721'' a) ''erc721'' ''0xc87b56dd'' k c0
      addr tokenId"
    using avatar_token_owner [OF assms(7-10), of p "init_run e" "''erc721''" k a] by simp
  also have "\<dots> = ((push (init_run e) ''erc721'' a)
           \<lparr>run_calls := run_calls (push (init_run e) ''erc721'' a)
              @ [(addr, ''0x6352211e'' @ drop 2 (toLowerCase tokenId))]\<rparr>, Null)"
    using assms(11-13) ownerOf_data [OF assms(10)]
    by (auto simp: avatar_owner_def do_call_def split: option.splits)
  finally have run: "avatar_run p e = ((push (init_run e) ''erc721'' a)
           \<lparr>run_calls := run_calls (push (init_run e) ''erc721'' a)
              @ [(addr, ''0x6352211e'' @ drop 2 (toLowerCase tokenId))]\<rparr>, Null)" .
  show ?thesis by (simp add: avatar_def run push_def init_run_def)
qed

subsection \<open>Runs that end before a scheme is chosen\<close>

lemma avatar_loop_unmatched:
  "list_all (\<lambda>m. m a = None) ms \<Longrightarrow> avatar_loop p e k a ms st = (st, Null)"
  by (induction ms) simp_all

lemma avatar_run_early:
  "info e = Inl x \<Longrightarrow> snd (avatar_run p e) = Thrown x"
  "info e = Inr None \<Longrightarrow> snd (avatar_run p e) = Null"
  "info e = Inr (Some acc) \<Longrightarrow> owner_key acc = None \<or> owner_key acc = Some [] \<Longrightarrow>
     snd (avatar_run p e) = Null"
  by (auto simp: avatar_run_def avatar_try_def)

lemma avatar_run_records:
  "records e ''profile.avatar'' = Inl x \<Longrightarrow>
     snd (avatar_run p e) = Null \<or> (\<exists>y. snd (avatar_run p e) = Thrown y)"
  "records e ''profile.avatar'' = Inr [] \<Longrightarrow>
     snd (avatar_run p e) = Null \<or> (\<exists>y. snd (avatar_run p e) = Thrown y)"
  "records e ''profile.avatar'' = Inr (a # rest) \<Longrightarrow> list_all (\<lambda>m. m a = None) matchers \<Longrightarrow>
     snd (avatar_run p e) = Null \<or> (\<exists>y. snd (avatar_run p e) = Thrown y)"
  by (auto simp: avatar_run_def avatar_try_def avatar_loop_unmatched
      split: sum.splits option.splits)

subsection \<open>Runs that return a value\<close>

text \<open>
  Each stage returns a value only when every operation before its \<open>return\<close>
  succeeded and every check passed; the lemmas read the conditions off the stages, from
  the last one to the whole run.
\<close>

lemma avatar_image_value:
  "snd (avatar_image st img) = Value r \<Longrightarrow>
   startsWith_i ''https://'' img \<or> startsWith_i ''data:'' img \<or> matcherIpfs img \<noteq> None"
  by (auto simp: avatar_image_def split: if_splits option.splits)

lemma avatar_fetch_value:
  assumes "snd (avatar_fetch e st u) = Value r"
  shows "\<exists>m img. fetchJson e u = Inr m \<and> truthy m \<and> image m = Some img
    \<and> (startsWith_i ''https://'' img \<or> startsWith_i ''data:'' img \<or> matcherIpfs img \<noteq> None)"
proof (cases "fetchJson e u")
  case (Inl x)
  with assms show ?thesis by (simp add: avatar_fetch_def do_fetch_def Let_def)
next
  case (Inr m)
  show ?thesis
  proof (cases "truthy m")
    case False
    with assms Inr show ?thesis by (simp add: avatar_fetch_def do_fetch_def Let_def)
  next
    case True
    show ?thesis
    proof (cases "image m")
      case None
      with assms Inr True show ?thesis by (simp add: avatar_fetch_def do_fetch_def Let_def)
    next
      case (Some img)
      with assms Inr True obtain st' where "snd (avatar_image st' img) = Value r"
        by (auto simp: avatar_fetch_def do_fetch_def Let_def)
      from avatar_image_value [OF this] Inr True Some show ?thesis by simp
    qed
  qed
qed

lemma avatar_metadata_value:
  assumes "snd (avatar_metadata p e st u) = Value r"
  shows "\<exists>murl m img.
      (if startsWith_i ''ipfs:'' u then getIpfsLink u (ipfs p) = Inr murl else murl = u)
    \<and> fetchJson e murl = Inr m \<and> truthy m \<and> image m = Some img
    \<and> (startsWith_i ''https://'' img \<or> startsWith_i ''data:'' img \<or> matcherIpfs img \<noteq> None)"
proof (cases "startsWith_i ''ipfs:'' u")
  case False
  with assms have "snd (avatar_fetch e st u) = Value r" by (simp add: avatar_metadata_def)
  from avatar_fetch_value [OF this] False show ?thesis by auto
next
  case True
  show ?thesis
  proof (cases "getIpfsLink u (ipfs p)")
    case (Inl x)
    with assms True show ?thesis by (simp add: avatar_metadata_def)
  next
    case (Inr murl)
    with assms True have "snd (avatar_fetch e st murl) = Value r"
      by (simp add: avatar_metadata_def)
    from avatar_fetch_value [OF this] True Inr show ?thesis by auto
  qed
qed

lemma avatar_tokenuri_value:
  assumes "snd (avatar_tokenuri p e st scheme sel c0 tokenId) = Value r"
    and "hexZeroPad v 32 = Inr tokenId"
    and "sel = ''0xc87b56dd'' \<or> sel = ''0x0e89341c''"
  shows "\<exists>addr ret uri murl m img.
      getAddress e c0 = Inr addr
    \<and> provider_call e addr (sel @ drop 2 (toLowerCase tokenId)) = Inr ret
    \<and> parseString ret 0 = Inr (Some uri)
    \<and> (if startsWith_i ''ipfs:''
             (if scheme = ''erc1155'' then replace_first ''{id}'' (drop 2 tokenId) uri else uri)
        then getIpfsLink
               (if scheme = ''erc1155'' then replace_first ''{id}'' (drop 2 tokenId) uri else uri)
               (ipfs p) = Inr murl
        else murl = (if scheme = ''erc1155'' then replace_first ''{id}'' (drop 2 tokenId) uri
                     else uri))
    \<and> fetchJson e murl = Inr m \<and> truthy m \<and> image m = Some img
    \<and> (startsWith_i ''https://'' img \<or> startsWith_i ''data:'' img \<or> matcherIpfs img \<noteq> None)"
proof -
  have hc: "hexConcat [sel, tokenId] = Inr (sel @ drop 2 (toLowerCase tokenId))"
    using assms(3) tokenURI_data [OF assms(2)] uri_data [OF assms(2)] by auto
  obtain addr where a: "getAddress e c0 = Inr addr"
    using assms(1) by (cases "getAddress e c0") (simp_all add: avatar_tokenuri_def formatter_address_def)
  obtain ret where c: "provider_call e addr (sel @ drop 2 (toLowerCase tokenId)) = Inr ret"
    using assms(1) a hc
    by (cases "provider_call e addr (sel @ drop 2 (toLowerCase tokenId))")
      (simp_all add: avatar_tokenuri_def formatter_address_def do_call_def)
  obtain uri where u: "parseString ret 0 = Inr (Some uri)"
    using assms(1) a hc c
    by (cases "parseString ret 0")
      (auto simp: avatar_tokenuri_def formatter_address_def do_call_def split: option.splits)
  let ?u = "if scheme = ''erc1155'' then replace_first ''{id}'' (drop 2 tokenId) uri else uri"
  obtain st' where "snd (avatar_metadata p e st' ?u) = Value r"
    using assms(1) avatar_tokenuri_step [OF assms(2) a assms(3) c u, of p st scheme]
    by (auto simp: Let_def split: if_splits)
  from avatar_metadata_value [OF this] a c u show ?thesis by blast
qed

lemma avatar_owner_value:
  assumes "snd (avatar_owner p e st scheme sel k c0 addr tokenId) = Value r"
    and "hexZeroPad v 32 = Inr tokenId"
    and "scheme = ''erc721'' \<or> scheme = ''erc1155''"
  shows "(\<exists>st'. snd (avatar_tokenuri p e st' scheme sel c0 tokenId) = Value r)
    \<and> (scheme = ''erc721'' \<and>
          (\<exists>ret1. provider_call e addr (''0x6352211e'' @ drop 2 (toLowerCase tokenId)) = Inr ret1
             \<and> formatter_callAddress e ret1 = Inr (Some k))
       \<or> scheme = ''erc1155'' \<and>
          (\<exists>padded ret1 balance. hexZeroPad k 32 = Inr padded
             \<and> provider_call e addr
                  (''0x00fdd58e'' @ drop 2 (toLowerCase padded) @ drop 2 (toLowerCase tokenId))
                 = Inr ret1
             \<and> BigNumber_from ret1 = Inr balance \<and> \<not> isZero balance))"
proof (cases "scheme = ''erc721''")
  case True
  let ?d = "''0x6352211e'' @ drop 2 (toLowerCase tokenId)"
  note hc = ownerOf_data [OF assms(2)]
  obtain ret1 where c: "provider_call e addr ?d = Inr ret1"
    using assms(1) True hc
    by (cases "provider_call e addr ?d") (simp_all add: avatar_owner_def do_call_def)
  obtain t where f: "formatter_callAddress e ret1 = Inr (Some t)"
    using assms(1) True hc c
    by (cases "formatter_callAddress e ret1")
      (auto simp: avatar_owner_def do_call_def split: option.splits)
  have kt: "t = k"
    using assms(1) True hc c f by (auto simp: avatar_owner_def do_call_def split: if_splits)
  have "\<exists>st'. snd (avatar_tokenuri p e st' scheme sel c0 tokenId) = Value r"
    using assms(1) True hc c f kt by (auto simp: avatar_owner_def do_call_def)
  with True c f kt show ?thesis by blast
next
  case False
  with assms(3) have s: "scheme = ''erc1155''" by simp
  obtain padded where pd: "hexZeroPad k 32 = Inr padded"
    using assms(1) s by (cases "hexZeroPad k 32") (simp_all add: avatar_owner_def)
  let ?d = "''0x00fdd58e'' @ drop 2 (toLowerCase padded) @ drop 2 (toLowerCase tokenId)"
  note hc = balanceOf_data [OF pd assms(2)]
  obtain ret1 where c: "provider_call e addr ?d = Inr ret1"
    using assms(1) s pd hc
    by (cases "provider_call e addr ?d") (simp_all add: avatar_owner_def do_call_def)
  obtain balance where b: "BigNumber_from ret1 = Inr balance"
    using assms(1) s pd hc c
    by (cases "BigNumber_from ret1") (simp_all add: avatar_owner_def do_call_def)
  have nz: "\<not> isZero balance"
    using assms(1) s pd hc c b by (auto simp: avatar_owner_def do_call_def split: if_splits)
  have "\<exists>st'. snd (avatar_tokenuri p e st' scheme sel c0 tokenId) = Value r"
    using assms(1) s pd hc c b nz by (auto simp: avatar_owner_def do_call_def)
  with s pd c b nz show ?thesis by blast
qed

lemma avatar_token_value:
  assumes "snd (avatar_token p e st scheme k a g2) = Value r"
  shows "\<exists>c0 c1 addr n tokenId st'.
      split_on CHR ''/'' g2 = [c0, c1] \<and> getAddress e c0 = Inr addr
    \<and> BigNumber_from c1 = Inr n \<and> hexZeroPad (toHexString n) 32 = Inr tokenId
    \<and> snd (avatar_owner p e st' scheme
              (if scheme = ''erc721'' then ''0xc87b56dd'' else ''0x0e89341c'') k c0 addr tokenId)
        = Value r"
proof -
  obtain c0 c1 where sp: "split_on CHR ''/'' g2 = [c0, c1]"
    using assms by (auto simp: avatar_token_def Let_def split: list.splits)
  obtain addr where a: "getAddress e c0 = Inr addr"
    using assms sp
    by (cases "getAddress e c0") (simp_all add: avatar_token_def formatter_address_def Let_def)
  obtain n where n: "BigNumber_from c1 = Inr n"
    using assms sp a
    by (cases "BigNumber_from c1") (simp_all add: avatar_token_def formatter_address_def Let_def)
  obtain tokenId where t: "hexZeroPad (toHexString n) 32 = Inr tokenId"
    using assms sp a n
    by (cases "hexZeroPad (toHexString n) 32")
      (simp_all add: avatar_token_def formatter_address_def Let_def)
  from assms avatar_token_owner [OF sp a n t, of p st scheme k a]
  have "snd (avatar_owner p e (push st scheme a) scheme
              (if scheme = ''erc721'' then ''0xc87b56dd'' else ''0x0e89341c'') k c0 addr tokenId)
        = Value r" by simp
  with sp a n t show ?thesis by blast
qed

lemma matcher_eip155_erc:
  assumes "matcher_eip155 a = Some (g1, g2)"
  shows "toLowerCase (take 1 g1) = ''e''"
proof -
  from assms obtain r3 d2 where g: "g1 = take 3 r3 @ d2" and s: "startsWith_i ''erc'' r3"
    by (auto simp: matcher_eip155_def Let_def split: if_splits)
  from startsWith_i_nonempty [OF s] have "r3 \<noteq> []" by simp
  then have "take 1 g1 = take 1 r3" by (cases r3) (simp_all add: g)
  with startsWith_i_take [OF s, of 1] show ?thesis by simp
qed

lemma matcher_eip155_not_direct:
  assumes "matcher_eip155 a = Some (g1, g2)"
  shows "toLowerCase g1 \<noteq> ''https'' \<and> toLowerCase g1 \<noteq> ''data'' \<and> toLowerCase g1 \<noteq> ''ipfs''"
proof -
  have "take 1 (toLowerCase g1) = ''e''"
    using matcher_eip155_erc [OF assms] by (simp add: toLowerCase_take)
  then show ?thesis by auto
qed

lemma avatar_loop_value:
  assumes "snd (avatar_loop p e k a matchers st) = Value r"
  shows "matcher_https a \<noteq> None \<or> matcher_data a \<noteq> None \<or> matcherIpfs a \<noteq> None
    \<or> (\<exists>g1 g2. matcher_eip155 a = Some (g1, g2)
          \<and> (toLowerCase g1 = ''erc721'' \<or> toLowerCase g1 = ''erc1155'')
          \<and> snd (avatar_token p e st (toLowerCase g1) k a g2) = Value r)"
proof (cases "matcher_https a = None \<and> matcher_data a = None \<and> matcherIpfs a = None")
  case False
  then show ?thesis by auto
next
  case True
  show ?thesis
  proof (cases "matcher_eip155 a")
    case None
    with assms True show ?thesis by (simp add: matchers_def)
  next
    case (Some g)
    obtain g1 g2 where g: "g = (g1, g2)" by (cases g)
    note m = Some [unfolded g]
    from matcher_eip155_not_direct [OF m] assms True m
    have "(toLowerCase g1 = ''erc721'' \<or> toLowerCase g1 = ''erc1155'')
        \<and> snd (avatar_token p e st (toLowerCase g1) k a g2) = Value r"
      by (auto simp: matchers_def Let_def split: if_splits)
    with m show ?thesis by blast
  qed
qed

lemma avatar_run_value:
  assumes "snd (avatar_run p e) = Value r"
  shows "\<exists>acc k a rest. info e = Inr (Some acc) \<and> owner_key acc = Some k \<and> k \<noteq> []
    \<and> records e ''profile.avatar'' = Inr (a # rest) \<and> a \<noteq> []
    \<and> snd (avatar_loop p e k a matchers (init_run e)) = Value r"
  using assms
  by (auto simp: avatar_run_def avatar_try_def split: sum.splits option.splits list.splits if_splits)

lemma avatar_resolves_only_if:
  assumes "snd (avatar_run p e) = Value r"
  shows "\<exists>acc k a rest.
       info e = Inr (Some acc) \<and> owner_key acc = Some k \<and> k \<noteq> []
     \<and> records e ''profile.avatar'' = Inr (a # rest) \<and> a \<noteq> []
     \<and> (matcher_https a \<noteq> None \<or> matcher_data a \<noteq> None \<or> matcherIpfs a \<noteq> None
        \<or> (\<exists>g1 g2 c0 c1 addr n tokenId ret uri murl m img.
               matcher_eip155 a = Some (g1, g2)
             \<and> (toLowerCase g1 = ''erc721'' \<or> toLowerCase g1 = ''erc1155'')
             \<and> split_on CHR ''/'' g2 = [c0, c1] \<and> getAddress e c0 = Inr addr
             \<and> BigNumber_from c1 = Inr n \<and> hexZeroPad (toHexString n) 32 = Inr tokenId
             \<and> (toLowerCase g1 = ''erc721'' \<and>
                   (\<exists>ret1. provider_call e addr (''0x6352211e'' @ drop 2 (toLowerCase tokenId))
                             = Inr ret1
                      \<and> formatter_callAddress e ret1 = Inr (Some k))
                \<or> toLowerCase g1 = ''erc1155'' \<and>
                   (\<exists>padded ret1 balance. hexZeroPad k 32 = Inr padded
                      \<and> provider_call e addr
                           (''0x00fdd58e'' @ drop 2 (toLowerCase padded)
                              @ drop 2 (toLowerCase tokenId)) = Inr ret1
                      \<and> BigNumber_from ret1 = Inr balance \<and> \<not> isZero balance))
             \<and> provider_call e addr
                  ((if toLowerCase g1 = ''erc721'' then ''0xc87b56dd'' else ''0x0e89341c'')
                     @ drop 2 (toLowerCase tokenId)) = Inr ret
             \<and> parseString ret 0 = Inr (Some uri)
             \<and> (if startsWith_i ''ipfs:''
                      (if toLowerCase g1 = ''erc1155''
                       then replace_first ''{id}'' (drop 2 tokenId) uri else uri)
                 then getIpfsLink
                        (if toLowerCase g1 = ''erc1155''
                         then replace_first ''{id}'' (drop 2 tokenId) uri else uri)
                        (ipfs p) = Inr murl
                 else murl = (if toLowerCase g1 = ''erc1155''
                              then replace_first ''{id}'' (drop 2 tokenId) uri else uri))
             \<and> fetchJson e murl = Inr m \<and> truthy m \<and> image m = Some img
             \<and> (startsWith_i ''https://'' img \<or> startsWith_i ''data:'' img
                  \<or> matcherIpfs img \<noteq> None)))"
proof -
  define T where "T = (\<lambda>k a. (\<exists>g1 g2 c0 c1 addr n tokenId ret uri murl m img.
               matcher_eip155 a = Some (g1, g2)
             \<and> (toLowerCase g1 = ''erc721'' \<or> toLowerCase g1 = ''erc1155'')
             \<and> split_on CHR ''/'' g2 = [c0, c1] \<and> getAddress e c0 = Inr addr
             \<and> BigNumber_from c1 = Inr n \<and> hexZeroPad (toHexString n) 32 = Inr tokenId
             \<and> (toLowerCase g1 = ''erc721'' \<and>
                   (\<exists>ret1. provider_call e addr (''0x6352211e'' @ drop 2 (toLowerCase tokenId))
                             = Inr ret1
                      \<and> formatter_callAddress e ret1 = Inr (Some k))
                \<or> toLowerCase g1 = ''erc1155'' \<and>
                   (\<exists>padded ret1 balance. hexZeroPad k 32 = Inr padded
                      \<and> provider_call e addr
                           (''0x00fdd58e'' @ drop 2 (toLowerCase padded)
                              @ drop 2 (toLowerCase tokenId)) = Inr ret1
                      \<and> BigNumber_from ret1 = Inr balance \<and> \<not> isZero balance))
             \<and> provider_call e addr
                  ((if toLowerCase g1 = ''erc721'' then ''0xc87b56dd'' else ''0x0e89341c'')
                     @ drop 2 (toLowerCase tokenId)) = Inr ret
             \<and> parseString ret 0 = Inr (Some uri)
             \<and> (if startsWith_i ''ipfs:''
                      (if toLowerCase g1 = ''erc1155''
                       then replace_first ''{id}'' (drop 2 tokenId) uri else uri)
                 then getIpfsLink
                        (if toLowerCase g1 = ''erc1155''
                         then replace_first ''{id}'' (drop 2 tokenId) uri else uri)
                        (ipfs p) = Inr murl
                 else murl = (if toLowerCase g1 = ''erc1155''
                              then replace_first ''{id}'' (drop 2 tokenId) uri else uri))
             \<and> fetchJson e murl = Inr m \<and> truthy m \<and> image m = Some img
             \<and> (startsWith_i ''https://'' img \<or> startsWith_i ''data:'' img
                  \<or> matcherIpfs img \<noteq> None)))"
  from avatar_run_value [OF assms] obtain acc k a rest
    where i: "info e = Inr (Some acc)" and o: "owner_key acc = Some k" and kn: "k \<noteq> []"
      and rc: "records e ''profile.avatar'' = Inr (a # rest)" and an: "a \<noteq> []"
      and lp: "snd (avatar_loop p e k a matchers (init_run e)) = Value r"
    by blast
  have d: "matcher_https a \<noteq> None \<or> matcher_data a \<noteq> None \<or> matcherIpfs a \<noteq> None \<or> T k a"
  proof (cases "matcher_https a \<noteq> None \<or> matcher_data a \<noteq> None \<or> matcherIpfs a \<noteq> None")
    case True
    then show ?thesis by auto
  next
    case False
    with avatar_loop_value [OF lp] obtain g1 g2
      where m: "matcher_eip155 a = Some (g1, g2)"
        and sc: "toLowerCase g1 = ''erc721'' \<or> toLowerCase g1 = ''erc1155''"
        and tk: "snd (avatar_token p e (init_run e) (toLowerCase g1) k a g2) = Value r"
      by auto
    let ?s = "toLowerCase g1"
    let ?sel = "if ?s = ''erc721'' then ''0xc87b56dd'' else ''0x0e89341c''"
    from avatar_token_value [OF tk] obtain c0 c1 addr n tokenId st1
      where sp: "split_on CHR ''/'' g2 = [c0, c1]" and ga: "getAddress e c0 = Inr addr"
        and bn: "BigNumber_from c1 = Inr n" and tid: "hexZeroPad (toHexString n) 32 = Inr tokenId"
        and ow: "snd (avatar_owner p e st1 ?s ?sel k c0 addr tokenId) = Value r"
      by blast
    from avatar_owner_value [OF ow tid sc] obtain st2
      where tu: "snd (avatar_tokenuri p e st2 ?s ?sel c0 tokenId) = Value r"
        and own: "?s = ''erc721'' \<and>
          (\<exists>ret1. provider_call e addr (''0x6352211e'' @ drop 2 (toLowerCase tokenId)) = Inr ret1
             \<and> formatter_callAddress e ret1 = Inr (Some k))
       \<or> ?s = ''erc1155'' \<and>
          (\<exists>padded ret1 balance. hexZeroPad k 32 = Inr padded
             \<and> provider_call e addr
                  (''0x00fdd58e'' @ drop 2 (toLowerCase padded) @ drop 2 (toLowerCase tokenId))
                 = Inr ret1
             \<and> BigNumber_from ret1 = Inr balance \<and> \<not> isZero balance)"
      by blast
    have sel: "?sel = ''0xc87b56dd'' \<or> ?sel = ''0x0e89341c''" by simp
    from avatar_tokenuri_value [OF tu tid sel] ga obtain ret uri murl m img
      where c: "provider_call e addr (?sel @ drop 2 (toLowerCase tokenId)) = Inr ret"
        and ps: "parseString ret 0 = Inr (Some uri)"
        and mu: "if startsWith_i ''ipfs:''
             (if ?s = ''erc1155'' then replace_first ''{id}'' (drop 2 tokenId) uri else uri)
        then getIpfsLink
               (if ?s = ''erc1155'' then replace_first ''{id}'' (drop 2 tokenId) uri else uri)
               (ipfs p) = Inr murl
        else murl = (if ?s = ''erc1155'' then replace_first ''{id}'' (drop 2 tokenId) uri
                     else uri)"
        and f: "fetchJson e murl = Inr m" "truthy m" "image m = Some img"
        and io: "startsWith_i ''https://'' img \<or> startsWith_i ''data:'' img
                  \<or> matcherIpfs img \<noteq> None"
      by auto
    have "T k a"
      unfolding T_def
      apply (rule exI [of _ g1], rule exI [of _ g2], rule exI [of _ c0], rule exI [of _ c1])
      apply (rule exI [of _ addr], rule exI [of _ n], rule exI [of _ tokenId])
      apply (rule exI [of _ ret], rule exI [of _ uri], rule exI [of _ murl])
      apply (rule exI [of _ m], rule exI [of _ img])
      using m sc sp ga bn tid own c ps mu f io by (intro conjI)
    then show ?thesis by simp
  qed
  from i o kn rc an d
  have "\<exists>acc k a rest.
       info e = Inr (Some acc) \<and> owner_key acc = Some k \<and> k \<noteq> []
     \<and> records e ''profile.avatar'' = Inr (a # rest) \<and> a \<noteq> []
     \<and> (matcher_https a \<noteq> None \<or> matcher_data a \<noteq> None \<or> matcherIpfs a \<noteq> None \<or> T k a)"
    by blast
  then show ?thesis unfolding T_def .
qed

subsection \<open>The expansion of the \<open>{id}\<close> token\<close>

lemma replace_first_skip:
  "take (length pat) (c # cs) \<noteq> pat \<Longrightarrow>
   replace_first pat rep (c # cs) = c # replace_first pat rep cs"
  by simp

lemma replace_first_first_occurrence:
  assumes "\<forall>i<length pre. take 4 (drop i (pre @ ''{id}'' @ post)) \<noteq> ''{id}''"
  shows "replace_first ''{id}'' h (pre @ ''{id}'' @ post) = pre @ h @ post"
  using assms
proof (induction pre)
  case Nil
  show ?case by simp
next
  case (Cons c cs)
  have e1: "(c # cs) @ ''{id}'' @ post = c # (cs @ ''{id}'' @ post)" by (rule append_Cons)
  have e2: "(c # cs) @ h @ post = c # (cs @ h @ post)" by (rule append_Cons)
  have "0 < length (c # cs)" by simp
  with Cons.prems have "take 4 (drop 0 ((c # cs) @ ''{id}'' @ post)) \<noteq> ''{id}''" by blast
  then have h4: "take 4 (c # (cs @ ''{id}'' @ post)) \<noteq> ''{id}''" by simp
  have len: "length ''{id}'' = 4" by simp
  have h: "take (length ''{id}'') (c # (cs @ ''{id}'' @ post)) \<noteq> ''{id}''"
    unfolding len by (rule h4)
  have "\<forall>i<length cs. take 4 (drop i (cs @ ''{id}'' @ post)) \<noteq> ''{id}''"
  proof (intro allI impI)
    fix i assume "i < length cs"
    then have "Suc i < length (c # cs)" by simp
    with Cons.prems have "take 4 (drop (Suc i) ((c # cs) @ ''{id}'' @ post)) \<noteq> ''{id}''"
      by blast
    then show "take 4 (drop i (cs @ ''{id}'' @ post)) \<noteq> ''{id}''" by simp
  qed
  from Cons.IH [OF this]
  have ih: "replace_first ''{id}'' h (cs @ ''{id}'' @ post) = cs @ h @ post" .
  have "replace_first ''{id}'' h (c # (cs @ ''{id}'' @ post))
      = c # replace_first ''{id}'' h (cs @ ''{id}'' @ post)"
    using h by (rule replace_first_skip)
  also have "\<dots> = c # (cs @ h @ post)" by (simp only: ih)
  finally show ?case unfolding e1 e2 .
qed

lemma avatar_erc1155_expanded_step:
  assumes "info e = Inr (Some acc)" and "owner_key acc = Some k" and "k \<noteq> []"
    and "records e ''profile.avatar'' = Inr (a # rest)"
    and "matcher_eip155 a = Some (g1, g2)" and "toLowerCase g1 = ''erc1155''"
    and "split_on CHR ''/'' g2 = [c0, c1]" and "getAddress e c0 = Inr addr"
    and "BigNumber_from c1 = Inr n" and "hexZeroPad (toHexString n) 32 = Inr tokenId"
    and "hexZeroPad k 32 = Inr padded"
    and "provider_call e addr
           (''0x00fdd58e'' @ drop 2 (toLowerCase padded) @ drop 2 (toLowerCase tokenId))
          = Inr ret"
    and "BigNumber_from ret = Inr balance" and "\<not> isZero balance"
    and "provider_call e addr (''0x0e89341c'' @ drop 2 (toLowerCase tokenId)) = Inr ret2"
    and "parseString ret2 0 = Inr (Some uri)"
  shows "take 5 (run_linkage (fst (avatar_run p e)))
        = [\<lparr>type = ''account'', content = account e\<rparr>,
           \<lparr>type = ''erc1155'', content = a\<rparr>,
           \<lparr>type = ''balance'', content = toString balance\<rparr>,
           \<lparr>type = ''metadata-url-base'', content = uri\<rparr>,
           \<lparr>type = ''metadata-url-expanded'',
              content = replace_first ''{id}'' (drop 2 tokenId) uri\<rparr>]"
proof -
  let ?w = "drop 2 tokenId"
  have sel: "''0x0e89341c'' = ''0xc87b56dd'' \<or> ''0x0e89341c'' = ''0x0e89341c''" by simp
  define st1 where "st1 = (push (init_run e) ''erc1155'' a)
        \<lparr>run_calls := run_calls (push (init_run e) ''erc1155'' a)
            @ [(addr, ''0x00fdd58e'' @ drop 2 (toLowerCase padded)
                 @ drop 2 (toLowerCase tokenId))]\<rparr>"
  define st3 where "st3 = (push st1 ''balance'' (toString balance))
        \<lparr>run_calls := run_calls (push st1 ''balance'' (toString balance))
            @ [(addr, ''0x0e89341c'' @ drop 2 (toLowerCase tokenId))]\<rparr>"
  define st5 where "st5 = push (push st3 ''metadata-url-base'' uri) ''metadata-url-expanded''
        (replace_first ''{id}'' ?w uri)"
  have "avatar_run p e = avatar_token p e (init_run e) ''erc1155'' k a g2"
    using avatar_run_token [OF assms(1-5)] assms(6) by simp
  also have "\<dots> = avatar_owner p e (push (init_run e) ''erc1155'' a) ''erc1155'' ''0x0e89341c'' k
      c0 addr tokenId"
    using avatar_token_owner [OF assms(7-10), of p "init_run e" "''erc1155''" k a] by simp
  also have "\<dots> = avatar_tokenuri p e (push st1 ''balance'' (toString balance)) ''erc1155''
      ''0x0e89341c'' c0 tokenId"
    unfolding st1_def using assms(14)
    by (simp add: avatar_owner_erc1155 [OF assms(10,11,12,13)] Let_def)
  also have "\<dots> = avatar_metadata p e st5 (replace_first ''{id}'' ?w uri)"
    unfolding st5_def st3_def
    by (simp add: avatar_tokenuri_step [OF assms(10) assms(8) sel assms(15,16)] Let_def)
  finally have run: "avatar_run p e = avatar_metadata p e st5 (replace_first ''{id}'' ?w uri)" .
  have l5: "run_linkage st5
        = [\<lparr>type = ''account'', content = account e\<rparr>,
           \<lparr>type = ''erc1155'', content = a\<rparr>,
           \<lparr>type = ''balance'', content = toString balance\<rparr>,
           \<lparr>type = ''metadata-url-base'', content = uri\<rparr>,
           \<lparr>type = ''metadata-url-expanded'', content = replace_first ''{id}'' ?w uri\<rparr>]"
    by (simp add: st5_def st3_def st1_def push_def init_run_def)
  from extends_metadata [of st5 p e "replace_first ''{id}'' ?w uri"]
  have "take (length (run_linkage st5)) (run_linkage (fst (avatar_run p e))) = run_linkage st5"
    by (simp add: extends_def run)
  moreover have "length (run_linkage st5) = 5" by (simp add: l5)
  ultimately have "take 5 (run_linkage (fst (avatar_run p e))) = run_linkage st5"
    by (simp only:)
  then show ?thesis by (simp only: l5)
qed

lemma avatar_erc1155_decimal_id:
  assumes "c1 \<noteq> []" and "list_all is_digit c1" and "dec_val c1 < 2 ^ 256"
  shows "\<exists>n tokenId. BigNumber_from c1 = Inr n \<and> hexZeroPad (toHexString n) 32 = Inr tokenId
    \<and> drop 2 tokenId = word_hex (dec_val c1)
    \<and> drop 2 (toLowerCase tokenId) = word_hex (dec_val c1)
    \<and> length (word_hex (dec_val c1)) = 64
    \<and> toLowerCase (word_hex (dec_val c1)) = word_hex (dec_val c1)
    \<and> hex_val (word_hex (dec_val c1)) = dec_val c1"
proof -
  let ?w = "word_hex (dec_val c1)"
  have lt: "dec_val c1 < 16 ^ 64" using assms(3) by simp
  from tokenId_decimal [OF assms(1,2) lt]
  obtain n tokenId where n: "BigNumber_from c1 = Inr n"
    and t: "hexZeroPad (toHexString n) 32 = Inr tokenId"
    and tid: "tokenId = ''0x'' @ ?w" by blast
  have "toLowerCase (''0x'' @ ?w) = toLowerCase ''0x'' @ ?w"
    by (simp only: toLowerCase_append toLowerCase_word_hex)
  moreover have "toLowerCase ''0x'' = ''0x''" by code_simp
  ultimately have low: "drop 2 (toLowerCase tokenId) = ?w" by (simp add: tid)
  have d2: "drop 2 tokenId = ?w" by (simp add: tid)
  have "length ?w = 64" using lt by (rule length_word_hex)
  with n t low d2 show ?thesis
    by (simp add: toLowerCase_word_hex hex_val_word_hex)
qed

section \<open>Properties of the specification\<close>

text \<open>
  C1. The avatar function never propagates an exception and never returns a partial
  result. Whenever the body ends with \<open>return null\<close> or with an exception of any kind
  (the account's \<open>info\<close> or \<open>records\<close>, the formatter, the big-number and hex
  utilities, the contract call, the metadata fetch, \<open>getIpfsLink\<close>), the caller gets
  \<open>null\<close>. A value that is returned is the one of a \<open>return {linkage, url}\<close> of the
  body: it carries the whole linkage, which starts with the account step and ends with
  the step that produced the URL. In particular the caller gets \<open>null\<close> when \<open>info\<close>
  throws or gives no account, when the owner key is missing or empty, when \<open>records\<close>
  throws or gives no record, and when no pattern matches the record.

  The last part of the statement covers every other failure: a value is returned only
  if the account has a non-empty owner key, its first avatar record is not empty, and
  the record either matches one of the direct patterns (\<open>https\<close>, \<open>data\<close>,
  \<open>ipfs\<close>) or is a token reference for which all of the following hold. The scheme
  is \<open>erc721\<close> or \<open>erc1155\<close>, the reference has exactly two components, the first
  is an address and the second a number that fits 32 bytes (otherwise: malformed token
  reference). The ownership call returned (otherwise: transport error) and, for
  \<open>erc721\<close>, the address decoded from it is the owner key (otherwise: ownership
  mismatch), or, for \<open>erc1155\<close>, the owner key pads to 32 bytes and the decoded
  balance is not zero (otherwise: zero balance). The \<open>tokenURI\<close> or \<open>uri\<close> call
  returned and its result decodes to a string (otherwise: transport error, ABI decode
  failure). A metadata URI starting with \<open>ipfs:\<close> has a form \<open>getIpfsLink\<close>
  supports (otherwise: unsupported IPFS format). The fetch of the metadata URL returned
  a document (otherwise: metadata fetch failure) that has an image (otherwise: missing
  image field), and the image is an \<open>https\<close>, \<open>data\<close> or \<open>ipfs\<close> URL. As the
  function always returns, the failure of any one of these conditions gives \<open>null\<close>.
  The provider is constructed before the \<open>try\<close>; its constructor makes no request
  and is not modelled.
\<close>

theorem avatar_unresolved_on_failure:
  "(\<exists>r. avatar p e = Inr r)
   \<and> (snd (avatar_run p e) = Null \<or> snd (avatar_run p e) = Thrown x \<longrightarrow> avatar p e = Inr None)
   \<and> (avatar p e = Inr (Some r) \<longrightarrow>
        snd (avatar_run p e) = Value r \<and> linkage r = run_linkage (fst (avatar_run p e))
        \<and> complete e r)
   \<and> (info e = Inl x \<longrightarrow> avatar p e = Inr None)
   \<and> (info e = Inr None \<longrightarrow> avatar p e = Inr None)
   \<and> (info e = Inr (Some acc) \<and> (owner_key acc = None \<or> owner_key acc = Some []) \<longrightarrow>
        avatar p e = Inr None)
   \<and> (records e ''profile.avatar'' = Inl x \<longrightarrow> avatar p e = Inr None)
   \<and> (records e ''profile.avatar'' = Inr [] \<longrightarrow> avatar p e = Inr None)
   \<and> (records e ''profile.avatar'' = Inr (a # rest) \<and> list_all (\<lambda>m. m a = None) matchers \<longrightarrow>
        avatar p e = Inr None)
   \<and> (avatar p e = Inr (Some r) \<longrightarrow>
       (\<exists>acc k a rest.
          info e = Inr (Some acc) \<and> owner_key acc = Some k \<and> k \<noteq> []
        \<and> records e ''profile.avatar'' = Inr (a # rest) \<and> a \<noteq> []
        \<and> (matcher_https a \<noteq> None \<or> matcher_data a \<noteq> None \<or> matcherIpfs a \<noteq> None
           \<or> (\<exists>g1 g2 c0 c1 addr n tokenId ret uri murl m img.
                  matcher_eip155 a = Some (g1, g2)
                \<and> (toLowerCase g1 = ''erc721'' \<or> toLowerCase g1 = ''erc1155'')
                \<and> split_on CHR ''/'' g2 = [c0, c1] \<and> getAddress e c0 = Inr addr
                \<and> BigNumber_from c1 = Inr n \<and> hexZeroPad (toHexString n) 32 = Inr tokenId
                \<and> (toLowerCase g1 = ''erc721'' \<and>
                      (\<exists>ret1. provider_call e addr (''0x6352211e'' @ drop 2 (toLowerCase tokenId))
                                = Inr ret1
                         \<and> formatter_callAddress e ret1 = Inr (Some k))
                   \<or> toLowerCase g1 = ''erc1155'' \<and>
                      (\<exists>padded ret1 balance. hexZeroPad k 32 = Inr padded
                         \<and> provider_call e addr
                              (''0x00fdd58e'' @ drop 2 (toLowerCase padded)
                                 @ drop 2 (toLowerCase tokenId)) = Inr ret1
                         \<and> BigNumber_from ret1 = Inr balance \<and> \<not> isZero balance))
                \<and> provider_call e addr
                     ((if toLowerCase g1 = ''erc721'' then ''0xc87b56dd'' else ''0x0e89341c'')
                        @ drop 2 (toLowerCase tokenId)) = Inr ret
                \<and> parseString ret 0 = Inr (Some uri)
                \<and> (if startsWith_i ''ipfs:''
                         (if toLowerCase g1 = ''erc1155''
                          then replace_first ''{id}'' (drop 2 tokenId) uri else uri)
                    then getIpfsLink
                           (if toLowerCase g1 = ''erc1155''
                            then replace_first ''{id}'' (drop 2 tokenId) uri else uri)
                           (ipfs p) = Inr murl
                    else murl = (if toLowerCase g1 = ''erc1155''
                                 then replace_first ''{id}'' (drop 2 tokenId) uri else uri))
                \<and> fetchJson e murl = Inr m \<and> truthy m \<and> image m = Some img
                \<and> (startsWith_i ''https://'' img \<or> startsWith_i ''data:'' img
                     \<or> matcherIpfs img \<noteq> None)))))"
  (is "_ \<and> _ \<and> _ \<and> _ \<and> _ \<and> _ \<and> _ \<and> _ \<and> _ \<and> (_ \<longrightarrow> ?only_if)")
proof -
  have fail: "avatar p e = Inr None"
    if "snd (avatar_run p e) = Null \<or> (\<exists>y. snd (avatar_run p e) = Thrown y)"
    using that by (auto simp: avatar_def)
  have 1: "\<exists>r. avatar p e = Inr r"
    by (simp add: avatar_def split: outcome.splits)
  have 2: "snd (avatar_run p e) = Null \<or> snd (avatar_run p e) = Thrown x \<longrightarrow> avatar p e = Inr None"
    using fail by blast
  have 3: "avatar p e = Inr (Some r) \<longrightarrow>
        snd (avatar_run p e) = Value r \<and> linkage r = run_linkage (fst (avatar_run p e))
        \<and> complete e r"
  proof
    assume "avatar p e = Inr (Some r)"
    then have v: "snd (avatar_run p e) = Value r"
      by (simp add: avatar_def split: outcome.splits)
    with avatar_value_complete [OF v]
    show "snd (avatar_run p e) = Value r \<and> linkage r = run_linkage (fst (avatar_run p e))
        \<and> complete e r" by simp
  qed
  have 4: "info e = Inl x \<longrightarrow> avatar p e = Inr None"
    using fail avatar_run_early(1) [of e x p] by blast
  have 5: "info e = Inr None \<longrightarrow> avatar p e = Inr None"
    using fail avatar_run_early(2) [of e p] by blast
  have 6: "info e = Inr (Some acc) \<and> (owner_key acc = None \<or> owner_key acc = Some []) \<longrightarrow>
        avatar p e = Inr None"
    using fail avatar_run_early(3) [of e acc p] by blast
  have 7: "records e ''profile.avatar'' = Inl x \<longrightarrow> avatar p e = Inr None"
    using fail avatar_run_records(1) [of e x p] by blast
  have 8: "records e ''profile.avatar'' = Inr [] \<longrightarrow> avatar p e = Inr None"
    using fail avatar_run_records(2) [of e p] by blast
  have 9: "records e ''profile.avatar'' = Inr (a # rest) \<and> list_all (\<lambda>m. m a = None) matchers \<longrightarrow>
        avatar p e = Inr None"
    using fail avatar_run_records(3) [of e a rest p] by blast
  have 10: "avatar p e = Inr (Some r) \<longrightarrow> ?only_if"
  proof
    assume "avatar p e = Inr (Some r)"
    then have "snd (avatar_run p e) = Value r"
      by (simp add: avatar_def split: outcome.splits)
    then show ?only_if by (rule avatar_resolves_only_if)
  qed
  from 1 2 3 4 5 6 7 8 9 10 show ?thesis by (intro conjI)
qed

theorem avatar_unresolved_on_failure_witness:
  "avatar (BitPluginAvatar None)
     ((example_env example_owner erc721_avatar 1)\<lparr>info := Inl TransportError\<rparr>) = Inr None
   \<and> avatar (BitPluginAvatar None)
     ((example_env example_owner erc721_avatar 1)\<lparr>info := Inr (Some \<lparr>owner_key = None\<rparr>)\<rparr>)
       = Inr None
   \<and> avatar (BitPluginAvatar None)
     ((example_env example_owner erc721_avatar 1)\<lparr>records := (\<lambda>k. Inr [])\<rparr>) = Inr None
   \<and> avatar (BitPluginAvatar None) (example_env example_owner ''ftp://example.com/a.png'' 1)
       = Inr None
   \<and> avatar (BitPluginAvatar None)
     (example_env example_owner (''eip155:1/erc721:'' @ example_contract) 1) = Inr None
   \<and> avatar (BitPluginAvatar None) (example_env other_owner erc721_avatar 1) = Inr None
   \<and> avatar (BitPluginAvatar None) (example_env example_owner erc1155_avatar 0) = Inr None
   \<and> avatar (BitPluginAvatar None)
     ((example_env example_owner erc721_avatar 1)
        \<lparr>perform_call := (\<lambda>to d. if take 10 d = ''0xc87b56dd'' then Inr ''0x''
                                   else example_call 1 to d)\<rparr>) = Inr None
   \<and> avatar (BitPluginAvatar None)
     ((example_env example_owner erc721_avatar 1)\<lparr>fetchJson := (\<lambda>u. Inl TransportError)\<rparr>)
       = Inr None
   \<and> avatar (BitPluginAvatar None)
     ((example_env example_owner erc721_avatar 1)
        \<lparr>fetchJson := (\<lambda>u. Inr \<lparr>truthy = True, stringify = ''{}'', image = None\<rparr>)\<rparr>)
       = Inr None
   \<and> avatar (BitPluginAvatar None)
     ((example_env example_owner erc721_avatar 1)
        \<lparr>perform_call := (\<lambda>to d. if take 10 d = ''0xc87b56dd''
                                   then Inr (abi_encode_string ''ipfs:Qm123'')
                                   else example_call 1 to d)\<rparr>) = Inr None
   \<and> avatar (BitPluginAvatar None)
     ((example_env example_owner erc721_avatar 1)\<lparr>perform_call := (\<lambda>to d. Inl TransportError)\<rparr>)
       = Inr None
   \<and> complete (example_env example_owner erc721_avatar 1)
       \<lparr>linkage = example_linkage ''https://gateway.ipfs.io/ipfs/Qm123''
                    ''https://gateway.ipfs.io/ipfs/QmImg'',
        url = ''https://gateway.ipfs.io/ipfs/QmImg''\<rparr>"
proof -
  let ?p = "BitPluginAvatar None"
  let ?e = "example_env example_owner erc721_avatar 1"
  let ?r = "\<lparr>linkage = example_linkage ''https://gateway.ipfs.io/ipfs/Qm123''
                    ''https://gateway.ipfs.io/ipfs/QmImg'',
        url = ''https://gateway.ipfs.io/ipfs/QmImg''\<rparr>"
  note t = avatar_unresolved_on_failure
  note total = t [THEN conjunct1]
  note only_if = t [THEN conjunct2, THEN conjunct2, THEN conjunct2, THEN conjunct2,
      THEN conjunct2, THEN conjunct2, THEN conjunct2, THEN conjunct2, THEN conjunct2]
  have m: "matcher_https erc721_avatar = None \<and> matcher_data erc721_avatar = None
      \<and> matcherIpfs erc721_avatar = None" by code_simp
  have 1: "info (?e\<lparr>info := Inl TransportError\<rparr>) = Inl TransportError" by simp
  have 2: "info (?e\<lparr>info := Inr (Some \<lparr>owner_key = None\<rparr>)\<rparr>) = Inr (Some \<lparr>owner_key = None\<rparr>)
      \<and> (owner_key \<lparr>owner_key = None\<rparr> = None \<or> owner_key \<lparr>owner_key = None\<rparr> = Some [])"
    by simp
  have 3: "records (?e\<lparr>records := (\<lambda>k. Inr [])\<rparr>) ''profile.avatar'' = Inr []" by simp
  have 4: "records (example_env example_owner ''ftp://example.com/a.png'' 1) ''profile.avatar''
        = Inr (''ftp://example.com/a.png'' # [])
      \<and> list_all (\<lambda>m. m ''ftp://example.com/a.png'' = None) matchers"
  proof
    show "records (example_env example_owner ''ftp://example.com/a.png'' 1) ''profile.avatar''
        = Inr (''ftp://example.com/a.png'' # [])" by (rule example_env_simps)
    show "list_all (\<lambda>m. m ''ftp://example.com/a.png'' = None) matchers" by code_simp
  qed
  have 5: "snd (avatar_run ?p
      (example_env example_owner (''eip155:1/erc721:'' @ example_contract) 1)) = Null"
    by code_simp
  have 6: "snd (avatar_run ?p (example_env other_owner erc721_avatar 1)) = Null"
    by code_simp
  have 7: "snd (avatar_run ?p (example_env example_owner erc1155_avatar 0)) = Null"
    by code_simp
  have 8: "snd (avatar_run ?p
      (?e\<lparr>perform_call := (\<lambda>to d. if take 10 d = ''0xc87b56dd'' then Inr ''0x''
                                   else example_call 1 to d)\<rparr>)) = Null"
    by code_simp
  have 9: "avatar ?p (?e\<lparr>fetchJson := (\<lambda>u. Inl TransportError)\<rparr>) \<noteq> Inr (Some r)" for r
    using only_if [of ?p "?e\<lparr>fetchJson := (\<lambda>u. Inl TransportError)\<rparr>" r] m
    by (auto simp: example_env_simps)
  have 10: "avatar ?p
      (?e\<lparr>fetchJson := (\<lambda>u. Inr \<lparr>truthy = True, stringify = ''{}'', image = None\<rparr>)\<rparr>)
        \<noteq> Inr (Some r)" for r
    using only_if [of ?p
        "?e\<lparr>fetchJson := (\<lambda>u. Inr \<lparr>truthy = True, stringify = ''{}'', image = None\<rparr>)\<rparr>" r] m
    by (auto simp: example_env_simps)
  have 11: "snd (avatar_run ?p
      (?e\<lparr>perform_call := (\<lambda>to d. if take 10 d = ''0xc87b56dd''
                                   then Inr (abi_encode_string ''ipfs:Qm123'')
                                   else example_call 1 to d)\<rparr>)) = Thrown UnsupportedIpfsFormat"
    by code_simp
  have 12: "avatar ?p (?e\<lparr>perform_call := (\<lambda>to d. Inl TransportError)\<rparr>) \<noteq> Inr (Some r)" for r
    using only_if [of ?p "?e\<lparr>perform_call := (\<lambda>to d. Inl TransportError)\<rparr>" r] m
    by (auto simp: example_env_simps provider_call_def)
  have 13: "avatar ?p ?e = Inr (Some ?r)" by code_simp
  from 1 t [where p = ?p and e = "?e\<lparr>info := Inl TransportError\<rparr>" and x = TransportError]
  have c1: "avatar ?p (?e\<lparr>info := Inl TransportError\<rparr>) = Inr None" by blast
  from 2 t [where p = ?p and e = "?e\<lparr>info := Inr (Some \<lparr>owner_key = None\<rparr>)\<rparr>"
      and acc = "\<lparr>owner_key = None\<rparr>"]
  have c2: "avatar ?p (?e\<lparr>info := Inr (Some \<lparr>owner_key = None\<rparr>)\<rparr>) = Inr None" by blast
  from 3 t [where p = ?p and e = "?e\<lparr>records := (\<lambda>k. Inr [])\<rparr>"]
  have c3: "avatar ?p (?e\<lparr>records := (\<lambda>k. Inr [])\<rparr>) = Inr None" by blast
  from 4 t [where p = ?p and e = "example_env example_owner ''ftp://example.com/a.png'' 1"
      and a = "''ftp://example.com/a.png''" and rest = "[]"]
  have c4: "avatar ?p (example_env example_owner ''ftp://example.com/a.png'' 1) = Inr None"
    by blast
  from 5 t [where p = ?p
      and e = "example_env example_owner (''eip155:1/erc721:'' @ example_contract) 1"]
  have c5: "avatar ?p (example_env example_owner (''eip155:1/erc721:'' @ example_contract) 1)
      = Inr None" by blast
  from 6 t [where p = ?p and e = "example_env other_owner erc721_avatar 1"]
  have c6: "avatar ?p (example_env other_owner erc721_avatar 1) = Inr None" by blast
  from 7 t [where p = ?p and e = "example_env example_owner erc1155_avatar 0"]
  have c7: "avatar ?p (example_env example_owner erc1155_avatar 0) = Inr None" by blast
  from 8 t [where p = ?p
      and e = "?e\<lparr>perform_call := (\<lambda>to d. if take 10 d = ''0xc87b56dd'' then Inr ''0x''
                                   else example_call 1 to d)\<rparr>"]
  have c8: "avatar ?p (?e\<lparr>perform_call := (\<lambda>to d. if take 10 d = ''0xc87b56dd'' then Inr ''0x''
                                   else example_call 1 to d)\<rparr>) = Inr None" by blast
  from total [of ?p "?e\<lparr>fetchJson := (\<lambda>u. Inl TransportError)\<rparr>"] 9
  have c9: "avatar ?p (?e\<lparr>fetchJson := (\<lambda>u. Inl TransportError)\<rparr>) = Inr None"
    by (metis option.exhaust)
  from total [of ?p
      "?e\<lparr>fetchJson := (\<lambda>u. Inr \<lparr>truthy = True, stringify = ''{}'', image = None\<rparr>)\<rparr>"] 10
  have c10: "avatar ?p
      (?e\<lparr>fetchJson := (\<lambda>u. Inr \<lparr>truthy = True, stringify = ''{}'', image = None\<rparr>)\<rparr>) = Inr None"
    by (metis option.exhaust)
  from 11 t [where p = ?p
      and e = "?e\<lparr>perform_call := (\<lambda>to d. if take 10 d = ''0xc87b56dd''
                                   then Inr (abi_encode_string ''ipfs:Qm123'')
                                   else example_call 1 to d)\<rparr>"
      and x = UnsupportedIpfsFormat]
  have c11: "avatar ?p (?e\<lparr>perform_call := (\<lambda>to d. if take 10 d = ''0xc87b56dd''
                                   then Inr (abi_encode_string ''ipfs:Qm123'')
                                   else example_call 1 to d)\<rparr>) = Inr None" by blast
  from total [of ?p "?e\<lparr>perform_call := (\<lambda>to d. Inl TransportError)\<rparr>"] 12
  have c12: "avatar ?p (?e\<lparr>perform_call := (\<lambda>to d. Inl TransportError)\<rparr>) = Inr None"
    by (metis option.exhaust)
  from 13 t [where p = ?p and e = ?e and r = ?r] have c13: "complete ?e ?r" by blast
  from c1 c2 c3 c4 c5 c6 c7 c8 c9 c10 c11 c12 c13 show ?thesis by (intro conjI)
qed

text \<open>
  C2, as amended. For an account with an owner key whose first avatar record matches
  the \<open>https\<close> pattern, the result has exactly the two steps \<open>account\<close> and \<open>url\<close>;
  when the record matches the \<open>data\<close> pattern, the two steps are \<open>account\<close> and
  \<open>data\<close>. In both cases the URL is the record, verbatim.
\<close>

theorem avatar_direct_https_data:
  assumes "info e = Inr (Some acc)" and "owner_key acc = Some k" and "k \<noteq> []"
    and "records e ''profile.avatar'' = Inr (a # rest)"
  shows "(matcher_https a \<noteq> None \<longrightarrow>
           avatar p e = Inr (Some \<lparr>linkage = [\<lparr>type = ''account'', content = account e\<rparr>,
                                              \<lparr>type = ''url'', content = a\<rparr>], url = a\<rparr>))
       \<and> (matcher_data a \<noteq> None \<longrightarrow>
           avatar p e = Inr (Some \<lparr>linkage = [\<lparr>type = ''account'', content = account e\<rparr>,
                                              \<lparr>type = ''data'', content = a\<rparr>], url = a\<rparr>))"
proof (intro conjI impI)
  assume "matcher_https a \<noteq> None"
  then obtain g1 g2 where m: "matcher_https a = Some (g1, g2)" by auto
  from matcher_https_scheme [OF m] have "a \<noteq> []" by simp
  from avatar_run_loop [OF assms this] avatar_loop_https [OF m]
  show "avatar p e = Inr (Some \<lparr>linkage = [\<lparr>type = ''account'', content = account e\<rparr>,
                                              \<lparr>type = ''url'', content = a\<rparr>], url = a\<rparr>)"
    by (simp add: avatar_def finish_def push_def init_run_def)
next
  assume "matcher_data a \<noteq> None"
  then obtain g1 g2 where m: "matcher_data a = Some (g1, g2)" by auto
  from matcher_data_scheme [OF m] have "a \<noteq> []" by simp
  from avatar_run_loop [OF assms this] avatar_loop_data [OF m]
  show "avatar p e = Inr (Some \<lparr>linkage = [\<lparr>type = ''account'', content = account e\<rparr>,
                                              \<lparr>type = ''data'', content = a\<rparr>], url = a\<rparr>)"
    by (simp add: avatar_def finish_def push_def init_run_def)
qed

theorem avatar_data_step_counterexample:
  "matcher_data ''data:image/png;base64,AAAA'' \<noteq> None
   \<and> avatar (BitPluginAvatar None) (example_env example_owner ''data:image/png;base64,AAAA'' 1)
       = Inr (Some \<lparr>linkage = [\<lparr>type = ''account'', content = ''jeffx.bit''\<rparr>,
                                  \<lparr>type = ''data'', content = ''data:image/png;base64,AAAA''\<rparr>],
                      url = ''data:image/png;base64,AAAA''\<rparr>)
   \<and> ''data'' \<noteq> ''url''"
  by code_simp

theorem avatar_direct_https_data_witness:
  "matcher_https ''https://example.com/a.png'' \<noteq> None
   \<and> avatar (BitPluginAvatar None) (example_env example_owner ''https://example.com/a.png'' 1)
       = Inr (Some \<lparr>linkage = [\<lparr>type = ''account'', content = ''jeffx.bit''\<rparr>,
                                  \<lparr>type = ''url'', content = ''https://example.com/a.png''\<rparr>],
                      url = ''https://example.com/a.png''\<rparr>)
   \<and> matcher_data ''data:image/png;base64,AAAA'' \<noteq> None
   \<and> avatar (BitPluginAvatar None) (example_env example_owner ''data:image/png;base64,AAAA'' 1)
       = Inr (Some \<lparr>linkage = [\<lparr>type = ''account'', content = ''jeffx.bit''\<rparr>,
                                  \<lparr>type = ''data'', content = ''data:image/png;base64,AAAA''\<rparr>],
                      url = ''data:image/png;base64,AAAA''\<rparr>)"
proof -
  let ?h = "''https://example.com/a.png''"
  let ?d = "''data:image/png;base64,AAAA''"
  have i: "info (example_env example_owner a 1) = Inr (Some \<lparr>owner_key = Some example_owner\<rparr>)"
    for a by (simp add: example_env_def)
  have k: "owner_key \<lparr>owner_key = Some example_owner\<rparr> = Some example_owner" by simp
  have n: "example_owner \<noteq> []" by (simp add: example_owner_def)
  have r: "records (example_env example_owner a 1) ''profile.avatar'' = Inr (a # [])" for a
    by (simp add: example_env_def)
  have a: "account (example_env example_owner a bal) = ''jeffx.bit''" for a bal
    by (simp add: example_env_def)
  have mh: "matcher_https ?h \<noteq> None" by code_simp
  have md: "matcher_data ?d \<noteq> None" by code_simp
  from avatar_direct_https_data [OF i k n r, of ?h "BitPluginAvatar None"]
    avatar_direct_https_data [OF i k n r, of ?d "BitPluginAvatar None"] mh md
  show ?thesis by (simp add: a)
qed

text \<open>
  C3. The ERC-721 check compares the owner key and the decoded owner with \<open>!==\<close>,
  that is as strings. \<open>callAddress\<close> returns the checksum form of the address, so an
  owner key in lower case, the form the indexer documents, is rejected although it is
  the address \<open>ownerOf\<close> returned; the same account resolves when its owner key is
  written in the checksum form.
\<close>

theorem avatar_erc721_owner_case_mismatch:
  "toLowerCase (toLowerCase example_owner) = toLowerCase example_owner
   \<and> formatter_callAddress (example_env (toLowerCase example_owner) erc721_avatar 1)
        (''0x'' @ replicate 24 CHR ''0'' @ drop 2 (toLowerCase example_owner))
       = Inr (Some example_owner)
   \<and> avatar (BitPluginAvatar None) (example_env (toLowerCase example_owner) erc721_avatar 1)
       = Inr None
   \<and> avatar (BitPluginAvatar None) (example_env example_owner erc721_avatar 1)
       = Inr (Some \<lparr>linkage = example_linkage ''https://gateway.ipfs.io/ipfs/Qm123''
                                  ''https://gateway.ipfs.io/ipfs/QmImg'',
                      url = ''https://gateway.ipfs.io/ipfs/QmImg''\<rparr>)"
  by code_simp

text \<open>
  C4. With a configured gateway, the direct \<open>ipfs\<close> branch and the translation of
  the metadata URI use it, but the translation of the metadata's image calls
  \<open>getIpfsLink\<close> without the gateway and falls back to the default one.
\<close>

theorem avatar_image_ignores_configured_gateway:
  "ipfs custom_gateway = ''https://ipfs.example''
   \<and> avatar custom_gateway (example_env example_owner erc721_avatar 1)
       = Inr (Some \<lparr>linkage = example_linkage ''https://ipfs.example/ipfs/Qm123''
                                  ''https://gateway.ipfs.io/ipfs/QmImg'',
                      url = ''https://gateway.ipfs.io/ipfs/QmImg''\<rparr>)
   \<and> avatar custom_gateway (example_env example_owner ''ipfs://QmImg'' 1)
       = Inr (Some \<lparr>linkage = [\<lparr>type = ''account'', content = ''jeffx.bit''\<rparr>,
                                  \<lparr>type = ''ipfs'', content = ''ipfs://QmImg''\<rparr>],
                      url = ''https://ipfs.example/ipfs/QmImg''\<rparr>)"
  by code_simp

text \<open>
  C5, as amended. For an ERC-721 reference whose owner key is, character for
  character, the checksum-form address that \<open>callAddress\<close> decodes from the
  \<open>ownerOf\<close> result, whose \<open>tokenURI\<close> is an \<open>ipfs://\<close> URI and whose metadata
  has an \<open>ipfs://\<close> image, the linkage has length 8, in the order \<open>account\<close>,
  \<open>erc721\<close>, \<open>owner\<close>, \<open>metadata-url-base\<close>, \<open>metadata-url\<close>, \<open>metadata\<close>,
  \<open>url-ipfs\<close>, \<open>url\<close>; the URL is the content of the last step, and it is the
  gateway translation of the image URI when the plugin uses the default gateway.
  Nothing is said of an owner key that writes the same address in another letter case,
  nor of the URL under a configured gateway.
\<close>

theorem avatar_erc721_ipfs_linkage:
  assumes "info e = Inr (Some acc)" and "owner_key acc = Some k" and "k \<noteq> []"
    and "records e ''profile.avatar'' = Inr (a # rest)"
    and "matcher_eip155 a = Some (g1, g2)" and "toLowerCase g1 = ''erc721''"
    and "split_on CHR ''/'' g2 = [c0, c1]" and "getAddress e c0 = Inr addr"
    and "BigNumber_from c1 = Inr n" and "hexZeroPad (toHexString n) 32 = Inr tokenId"
    and "provider_call e addr (''0x6352211e'' @ drop 2 (toLowerCase tokenId)) = Inr ret1"
    and "formatter_callAddress e ret1 = Inr (Some k)"
    and "provider_call e addr (''0xc87b56dd'' @ drop 2 (toLowerCase tokenId)) = Inr ret2"
    and "parseString ret2 0 = Inr (Some uri)" and "startsWith_i ''ipfs://'' uri"
    and "getIpfsLink uri (ipfs p) = Inr murl"
    and "fetchJson e murl = Inr m" and "truthy m" and "image m = Some img"
    and "matcherIpfs img = Some (i1, i2)"
  shows "\<exists>r. avatar p e = Inr (Some r)
    \<and> length (linkage r) = 8
    \<and> take 7 (linkage r)
        = [\<lparr>type = ''account'', content = account e\<rparr>,
           \<lparr>type = ''erc721'', content = a\<rparr>,
           \<lparr>type = ''owner'', content = k\<rparr>,
           \<lparr>type = ''metadata-url-base'', content = uri\<rparr>,
           \<lparr>type = ''metadata-url'', content = murl\<rparr>,
           \<lparr>type = ''metadata'', content = stringify m\<rparr>,
           \<lparr>type = ''url-ipfs'', content = img\<rparr>]
    \<and> drop 7 (linkage r) = [\<lparr>type = ''url'', content = url r\<rparr>]
    \<and> (ipfs p = default_gateway \<longrightarrow> getIpfsLink img (ipfs p) = Inr (url r))"
proof -
  from matcherIpfs_not_direct [OF assms(20)] have "startsWith_i ''ipfs://'' img" by simp
  from getIpfsLink_defined [OF this, of default_gateway]
  obtain u where u: "getIpfsLink img default_gateway = Inr u" by blast
  have sel: "''0xc87b56dd'' = ''0xc87b56dd'' \<or> ''0xc87b56dd'' = ''0x0e89341c''" by simp
  have "avatar_run p e = avatar_token p e (init_run e) ''erc721'' k a g2"
    using avatar_run_token [OF assms(1-5)] assms(6) by simp
  also have "\<dots> = avatar_owner p e (push (init_run e) ''erc721'' a) ''erc721'' ''0xc87b56dd'' k c0
      addr tokenId"
    using avatar_token_owner [OF assms(7-10), of p "init_run e" "''erc721''" k a] by simp
  finally have run: "avatar_run p e = avatar_owner p e (push (init_run e) ''erc721'' a) ''erc721''
      ''0xc87b56dd'' k c0 addr tokenId" .
  have "snd (avatar_run p e) = Value
      \<lparr>linkage = [\<lparr>type = ''account'', content = account e\<rparr>,
           \<lparr>type = ''erc721'', content = a\<rparr>,
           \<lparr>type = ''owner'', content = k\<rparr>,
           \<lparr>type = ''metadata-url-base'', content = uri\<rparr>,
           \<lparr>type = ''metadata-url'', content = murl\<rparr>,
           \<lparr>type = ''metadata'', content = stringify m\<rparr>,
           \<lparr>type = ''url-ipfs'', content = img\<rparr>,
           \<lparr>type = ''url'', content = u\<rparr>], url = u\<rparr>"
    unfolding run
    by (simp add: avatar_owner_erc721 [OF assms(10-12)]
        avatar_tokenuri_step [OF assms(10) assms(8) sel assms(13,14)]
        avatar_metadata_ipfs [OF assms(15,16)] avatar_fetch_image [OF assms(17-19)]
        avatar_image_ipfs [OF assms(20) u] Let_def finish_def push_def init_run_def)
  then have "avatar p e = Inr (Some
      \<lparr>linkage = [\<lparr>type = ''account'', content = account e\<rparr>,
           \<lparr>type = ''erc721'', content = a\<rparr>,
           \<lparr>type = ''owner'', content = k\<rparr>,
           \<lparr>type = ''metadata-url-base'', content = uri\<rparr>,
           \<lparr>type = ''metadata-url'', content = murl\<rparr>,
           \<lparr>type = ''metadata'', content = stringify m\<rparr>,
           \<lparr>type = ''url-ipfs'', content = img\<rparr>,
           \<lparr>type = ''url'', content = u\<rparr>], url = u\<rparr>)"
    by (simp add: avatar_def)
  then show ?thesis using u by simp
qed

theorem avatar_erc721_linkage_length_counterexample:
  "(case avatar (BitPluginAvatar None) (example_env example_owner erc721_avatar 1) of
      Inr (Some r) \<Rightarrow> length (linkage r) = 8 \<and> length (linkage r) \<noteq> 6
        \<and> map type (linkage r)
            = [''account'', ''erc721'', ''owner'', ''metadata-url-base'', ''metadata-url'',
               ''metadata'', ''url-ipfs'', ''url'']
    | _ \<Rightarrow> False)"
  by code_simp

theorem avatar_erc721_ipfs_linkage_witness:
  "\<exists>r. avatar (BitPluginAvatar None) (example_env example_owner erc721_avatar 1) = Inr (Some r)
     \<and> length (linkage r) = 8
     \<and> take 7 (linkage r)
         = take 7 (example_linkage ''https://gateway.ipfs.io/ipfs/Qm123'' [])
     \<and> drop 7 (linkage r) = [\<lparr>type = ''url'', content = url r\<rparr>]
     \<and> url r = ''https://gateway.ipfs.io/ipfs/QmImg''"
proof -
  let ?p = "BitPluginAvatar None"
  let ?e = "example_env example_owner erc721_avatar 1"
  let ?tid = "''0x'' @ word_hex 7"
  let ?ret1 = "''0x'' @ replicate 24 CHR ''0'' @ drop 2 (toLowerCase example_owner)"
  have h1: "info ?e = Inr (Some \<lparr>owner_key = Some example_owner\<rparr>)"
    by (simp add: example_env_def)
  have h2: "owner_key \<lparr>owner_key = Some example_owner\<rparr> = Some example_owner" by simp
  have h3: "example_owner \<noteq> []" by (simp add: example_owner_def)
  have h4: "records ?e ''profile.avatar'' = Inr (erc721_avatar # [])"
    by (simp add: example_env_def)
  have h5: "matcher_eip155 erc721_avatar = Some (''erc721'', example_contract @ ''/7'')"
    by code_simp
  have h6: "toLowerCase ''erc721'' = ''erc721''" by code_simp
  have h7: "split_on CHR ''/'' (example_contract @ ''/7'') = [example_contract, ''7'']"
    by code_simp
  have h8: "getAddress ?e example_contract = Inr example_contract"
    by (simp add: example_env_def example_getAddress_def)
  have h9: "BigNumber_from ''7'' = Inr (BigNumber ''0x07'')" by code_simp
  have h10: "hexZeroPad (toHexString (BigNumber ''0x07'')) 32 = Inr ?tid" by code_simp
  have h11: "provider_call ?e example_contract (''0x6352211e'' @ drop 2 (toLowerCase ?tid))
      = Inr ?ret1" by code_simp
  have h12: "formatter_callAddress ?e ?ret1 = Inr (Some example_owner)" by code_simp
  have h13: "provider_call ?e example_contract (''0xc87b56dd'' @ drop 2 (toLowerCase ?tid))
      = Inr (abi_encode_string ''ipfs://Qm123'')" by code_simp
  have h14: "parseString (abi_encode_string ''ipfs://Qm123'') 0 = Inr (Some ''ipfs://Qm123'')"
    by code_simp
  have h15: "startsWith_i ''ipfs://'' ''ipfs://Qm123''" by code_simp
  have h16: "getIpfsLink ''ipfs://Qm123'' (ipfs ?p) = Inr ''https://gateway.ipfs.io/ipfs/Qm123''"
    by code_simp
  have h17: "fetchJson ?e ''https://gateway.ipfs.io/ipfs/Qm123'' = Inr example_metadata"
    by (simp add: example_env_def)
  have h18: "truthy example_metadata" by (simp add: example_metadata_def)
  have h19: "image example_metadata = Some ''ipfs://QmImg''" by (simp add: example_metadata_def)
  have h20: "matcherIpfs ''ipfs://QmImg'' = Some (''ipfs'', ''QmImg'')" by code_simp
  have g: "ipfs ?p = default_gateway" by (simp add: BitPluginAvatar_def)
  have u: "getIpfsLink ''ipfs://QmImg'' default_gateway = Inr ''https://gateway.ipfs.io/ipfs/QmImg''"
    by code_simp
  have a: "account ?e = ''jeffx.bit''" by (rule example_env_simps)
  have s: "stringify example_metadata = ''{\"image\":\"ipfs://QmImg\"}''"
    by (simp add: example_metadata_def)
  from avatar_erc721_ipfs_linkage [OF h1 h2 h3 h4 h5 h6 h7 h8 h9 h10 h11 h12 h13 h14 h15 h16 h17
      h18 h19 h20]
  obtain r where r: "avatar ?p ?e = Inr (Some r)" "length (linkage r) = 8"
    "take 7 (linkage r)
        = [\<lparr>type = ''account'', content = account ?e\<rparr>,
           \<lparr>type = ''erc721'', content = erc721_avatar\<rparr>,
           \<lparr>type = ''owner'', content = example_owner\<rparr>,
           \<lparr>type = ''metadata-url-base'', content = ''ipfs://Qm123''\<rparr>,
           \<lparr>type = ''metadata-url'', content = ''https://gateway.ipfs.io/ipfs/Qm123''\<rparr>,
           \<lparr>type = ''metadata'', content = stringify example_metadata\<rparr>,
           \<lparr>type = ''url-ipfs'', content = ''ipfs://QmImg''\<rparr>]"
    "drop 7 (linkage r) = [\<lparr>type = ''url'', content = url r\<rparr>]"
    "ipfs ?p = default_gateway \<longrightarrow> getIpfsLink ''ipfs://QmImg'' (ipfs ?p) = Inr (url r)"
    by blast
  from r(5) g u have "url r = ''https://gateway.ipfs.io/ipfs/QmImg''" by simp
  with r(1-4) show ?thesis by (simp add: example_env_simps s example_linkage_def)
qed

text \<open>
  C6. \<open>getIpfsLink\<close> strips exactly one accepted prefix, \<open>ipfs://ipfs/\<close> or else
  \<open>ipfs://\<close> (in any case of the letters, as the patterns have the flag \<open>i\<close>), and
  returns the gateway, \<open>/ipfs/\<close> and the remainder; an input with neither prefix raises
  the unsupported-format error. Every input falls under one of the three cases.
\<close>

theorem getIpfsLink_strips_one_prefix:
  "(toLowerCase p = ''ipfs://ipfs/'' \<longrightarrow>
      getIpfsLink (p @ cid) gateway = Inr (gateway @ ''/ipfs/'' @ cid))
   \<and> (toLowerCase p = ''ipfs://'' \<and> \<not> startsWith_i ''ipfs/'' cid \<longrightarrow>
      getIpfsLink (p @ cid) gateway = Inr (gateway @ ''/ipfs/'' @ cid))
   \<and> (\<not> startsWith_i ''ipfs://'' link \<longrightarrow> getIpfsLink link gateway = Inl UnsupportedIpfsFormat)
   \<and> (startsWith_i ''ipfs://'' link \<longrightarrow>
        (\<exists>q r. link = q @ r
           \<and> (toLowerCase q = ''ipfs://ipfs/''
                \<or> toLowerCase q = ''ipfs://'' \<and> \<not> startsWith_i ''ipfs/'' r)))"
proof (intro conjI impI)
  assume p: "toLowerCase p = ''ipfs://ipfs/''"
  then have "length p = 12" using length_toLowerCase [of p] by simp
  then show "getIpfsLink (p @ cid) gateway = Inr (gateway @ ''/ipfs/'' @ cid)"
    using p by (simp add: getIpfsLink_def sw_ipfs12 substring1_def)
next
  assume a: "toLowerCase p = ''ipfs://'' \<and> \<not> startsWith_i ''ipfs/'' cid"
  then have l: "length p = 7" using length_toLowerCase [of p] by simp
  have "startsWith_i ''ipfs://'' (p @ cid)" using a l by (simp add: sw_ipfs7)
  moreover have "\<not> startsWith_i ''ipfs://ipfs/'' (p @ cid)"
    using a l by (simp add: sw_ipfs12_split)
  ultimately show "getIpfsLink (p @ cid) gateway = Inr (gateway @ ''/ipfs/'' @ cid)"
    using l by (simp add: getIpfsLink_def substring1_def)
next
  assume n: "\<not> startsWith_i ''ipfs://'' link"
  then have "\<not> startsWith_i ''ipfs://ipfs/'' link" by (simp add: sw_ipfs12_split)
  with n show "getIpfsLink link gateway = Inl UnsupportedIpfsFormat"
    by (simp add: getIpfsLink_def)
next
  assume s: "startsWith_i ''ipfs://'' link"
  show "\<exists>q r. link = q @ r
           \<and> (toLowerCase q = ''ipfs://ipfs/''
                \<or> toLowerCase q = ''ipfs://'' \<and> \<not> startsWith_i ''ipfs/'' r)"
  proof (cases "startsWith_i ''ipfs://ipfs/'' link")
    case True
    then have "link = take 12 link @ drop 12 link \<and> toLowerCase (take 12 link) = ''ipfs://ipfs/''"
      by (simp add: sw_ipfs12)
    then show ?thesis by blast
  next
    case False
    then have "\<not> startsWith_i ''ipfs/'' (drop 7 link)" using s by (simp add: sw_ipfs12_split)
    then have "link = take 7 link @ drop 7 link \<and> toLowerCase (take 7 link) = ''ipfs://''
        \<and> \<not> startsWith_i ''ipfs/'' (drop 7 link)"
      using s by (simp add: sw_ipfs7)
    then show ?thesis by blast
  qed
qed

theorem getIpfsLink_strips_one_prefix_witness:
  "toLowerCase ''ipfs://ipfs/'' = ''ipfs://ipfs/''
   \<and> getIpfsLink ''ipfs://ipfs/QmImg'' default_gateway = Inr ''https://gateway.ipfs.io/ipfs/QmImg''
   \<and> toLowerCase ''IPFS://'' = ''ipfs://'' \<and> \<not> startsWith_i ''ipfs/'' ''QmImg''
   \<and> getIpfsLink ''IPFS://QmImg'' default_gateway = Inr ''https://gateway.ipfs.io/ipfs/QmImg''
   \<and> \<not> startsWith_i ''ipfs://'' ''ipfs:QmImg''
   \<and> getIpfsLink ''ipfs:QmImg'' default_gateway = Inl UnsupportedIpfsFormat
   \<and> startsWith_i ''ipfs://'' ''ipfs://QmImg''
   \<and> (\<exists>q r. ''ipfs://QmImg'' = q @ r
          \<and> (toLowerCase q = ''ipfs://ipfs/''
               \<or> toLowerCase q = ''ipfs://'' \<and> \<not> startsWith_i ''ipfs/'' r))"
proof -
  have a: "toLowerCase ''ipfs://ipfs/'' = ''ipfs://ipfs/''"
    by code_simp
  have b: "toLowerCase ''IPFS://'' = ''ipfs://'' \<and> \<not> startsWith_i ''ipfs/'' ''QmImg''"
    by code_simp
  have c: "\<not> startsWith_i ''ipfs://'' ''ipfs:QmImg''"
    by code_simp
  have d: "startsWith_i ''ipfs://'' ''ipfs://QmImg''"
    by code_simp
  have e: "\<exists>q r. ''ipfs://QmImg'' = q @ r
          \<and> (toLowerCase q = ''ipfs://ipfs/''
               \<or> toLowerCase q = ''ipfs://'' \<and> \<not> startsWith_i ''ipfs/'' r)"
    using d getIpfsLink_strips_one_prefix [of "''ipfs://''" "''QmImg''" default_gateway
        "''ipfs://QmImg''"]
    by blast
  have f: "getIpfsLink ''ipfs://ipfs/QmImg'' default_gateway = Inr ''https://gateway.ipfs.io/ipfs/QmImg''
      \<and> getIpfsLink ''IPFS://QmImg'' default_gateway = Inr ''https://gateway.ipfs.io/ipfs/QmImg''
      \<and> getIpfsLink ''ipfs:QmImg'' default_gateway = Inl UnsupportedIpfsFormat"
    using a b c
      getIpfsLink_strips_one_prefix [of "''ipfs://ipfs/''" "''QmImg''" default_gateway
        "''ipfs:QmImg''"]
      getIpfsLink_strips_one_prefix [of "''IPFS://''" "''QmImg''" default_gateway
        "''ipfs:QmImg''"]
    by (simp add: default_gateway_def)
  from a b c d e f show ?thesis by (intro conjI) simp_all
qed

text \<open>
  C7. The text put in the place of \<open>{id}\<close> is \<open>tokenId.substring(2)\<close>, where
  \<open>tokenId\<close> is \<open>hexZeroPad(BigNumber.from(comps[1]).toHexString(), 32)\<close>, and
  \<open>BigNumber.from\<close> keeps the digits of a hex literal in the case the record wrote
  them. For the record ending in \<open>/0xAB\<close> the expanded URI carries the 64 digits
  ending in \<open>AB\<close>, in upper case, while the \<open>uri\<close> call of the same run, whose data
  \<open>hexConcat\<close> builds, carries the id in lower case; the same token written
  \<open>/0xab\<close> or \<open>/171\<close> is expanded with the digits in lower case, and the
  token id 5 of the specification's example with sixty-three zeros and the digit 5.
\<close>

theorem avatar_erc1155_hex_id_upper_case:
  "run_linkage (fst (avatar_run (BitPluginAvatar None)
      (example_env example_owner (''eip155:1/erc1155:'' @ example_contract @ ''/0xAB'') 1))) ! 4
     = \<lparr>type = ''metadata-url-expanded'',
        content = ''https://example.com/'' @ replicate 62 CHR ''0'' @ ''AB.json''\<rparr>
   \<and> run_calls (fst (avatar_run (BitPluginAvatar None)
      (example_env example_owner (''eip155:1/erc1155:'' @ example_contract @ ''/0xAB'') 1))) ! 1
     = (example_contract, ''0x0e89341c'' @ replicate 62 CHR ''0'' @ ''ab'')
   \<and> run_linkage (fst (avatar_run (BitPluginAvatar None)
      (example_env example_owner (''eip155:1/erc1155:'' @ example_contract @ ''/0xab'') 1))) ! 4
     = \<lparr>type = ''metadata-url-expanded'',
        content = ''https://example.com/'' @ replicate 62 CHR ''0'' @ ''ab.json''\<rparr>
   \<and> run_linkage (fst (avatar_run (BitPluginAvatar None)
      (example_env example_owner (''eip155:1/erc1155:'' @ example_contract @ ''/171'') 1))) ! 4
     = \<lparr>type = ''metadata-url-expanded'',
        content = ''https://example.com/'' @ replicate 62 CHR ''0'' @ ''ab.json''\<rparr>
   \<and> run_linkage (fst (avatar_run (BitPluginAvatar None)
      (example_env example_owner erc1155_avatar 1))) ! 4
     = \<lparr>type = ''metadata-url-expanded'',
        content = ''https://example.com/'' @ replicate 63 CHR ''0'' @ ''5.json''\<rparr>
   \<and> word_hex 0xAB = replicate 62 CHR ''0'' @ ''ab''
   \<and> toLowerCase (replicate 62 CHR ''0'' @ ''AB'') = replicate 62 CHR ''0'' @ ''ab''"
  by code_simp

text \<open>
  C8. Round trip: the encoding of a string as a single dynamic value, decoded by
  \<open>_parseString\<close> at start 0, is the string itself. In the UTF-8 reading a string is
  any byte sequence that \<open>getUtf8CodePoints\<close> accepts, and a JavaScript string is
  shorter than \<open>2 ^ 53\<close>.
\<close>

theorem parseString_abi_encode_string:
  assumes "getUtf8CodePoints (map code s) = Inr cps" and "length s < 2 ^ 53"
  shows "parseString (abi_encode_string s) 0 = Inr (Some s)"
proof -
  have "arrayify (Some (''0x'' @ bytes_hex (map code s))) = Inr (map code s)"
    by (rule arrayify_bytes_hex) (simp add: list_all_iff code_lt_256)
  then have "toUtf8String (Some (''0x'' @ bytes_hex (map code s))) = Inr s"
    using assms(1) by (simp add: toUtf8String_def char_of_code)
  then show ?thesis
    using parseBytes_abi_encode_string [OF assms(2)] by (simp add: parseString_def)
qed

theorem parseString_abi_encode_string_witness:
  "getUtf8CodePoints (map code ''foo'') = Inr [102, 111, 111] \<and> length ''foo'' < (2::nat) ^ 53
   \<and> parseString (abi_encode_string ''foo'') 0 = Inr (Some ''foo'')"
proof -
  have a: "getUtf8CodePoints (map code ''foo'') = Inr [102, 111, 111]"
    by (simp add: code_def)
  have b: "length ''foo'' < (2::nat) ^ 53" by simp
  show ?thesis using a b parseString_abi_encode_string [OF a b] by simp
qed

text \<open>
  C9. For an ERC-1155 reference the resolver calls \<open>balanceOf\<close>: the selector
  \<open>0x00fdd58e\<close>, the owner key padded to 32 bytes and the token id padded to 32 bytes.
  When the decoded balance is zero the result is \<open>null\<close>, and that call is the only
  one made: \<open>uri\<close> is never called.
\<close>

theorem avatar_erc1155_zero_balance:
  assumes "info e = Inr (Some acc)" and "owner_key acc = Some k" and "k \<noteq> []"
    and "records e ''profile.avatar'' = Inr (a # rest)"
    and "matcher_eip155 a = Some (g1, g2)" and "toLowerCase g1 = ''erc1155''"
    and "split_on CHR ''/'' g2 = [c0, c1]" and "getAddress e c0 = Inr addr"
    and "BigNumber_from c1 = Inr n" and "hexZeroPad (toHexString n) 32 = Inr tokenId"
    and "hexZeroPad k 32 = Inr padded"
    and "provider_call e addr
           (''0x00fdd58e'' @ drop 2 (toLowerCase padded) @ drop 2 (toLowerCase tokenId)) = Inr ret"
    and "BigNumber_from ret = Inr balance" and "isZero balance"
  shows "avatar p e = Inr None
    \<and> run_calls (fst (avatar_run p e))
        = [(addr, ''0x00fdd58e'' @ drop 2 (toLowerCase padded) @ drop 2 (toLowerCase tokenId))]
    \<and> length padded = 66 \<and> length tokenId = 66"
proof -
  have r: "avatar_run p e = avatar_token p e (init_run e) ''erc1155'' k a g2"
    using avatar_run_token [OF assms(1-5)] assms(6) by simp
  have t: "avatar_token p e (init_run e) ''erc1155'' k a g2
      = avatar_owner p e (push (init_run e) ''erc1155'' a) ''erc1155'' ''0x0e89341c'' k c0 addr
          tokenId"
    using avatar_token_owner [OF assms(7-10), of p "init_run e" "''erc1155''" k a] by simp
  have o: "avatar_owner p e (push (init_run e) ''erc1155'' a) ''erc1155'' ''0x0e89341c'' k c0
        addr tokenId
      = ((push (init_run e) ''erc1155'' a)
           \<lparr>run_calls := run_calls (push (init_run e) ''erc1155'' a)
              @ [(addr, ''0x00fdd58e'' @ drop 2 (toLowerCase padded)
                         @ drop 2 (toLowerCase tokenId))]\<rparr>, Null)"
    using avatar_owner_erc1155 [OF assms(10-13)] assms(14) by (simp add: Let_def)
  have run: "avatar_run p e
      = ((push (init_run e) ''erc1155'' a)
           \<lparr>run_calls := run_calls (push (init_run e) ''erc1155'' a)
              @ [(addr, ''0x00fdd58e'' @ drop 2 (toLowerCase padded)
                         @ drop 2 (toLowerCase tokenId))]\<rparr>, Null)"
    using r t o by simp
  have "avatar p e = Inr None" by (simp add: avatar_def run)
  moreover have "run_calls (fst (avatar_run p e))
        = [(addr, ''0x00fdd58e'' @ drop 2 (toLowerCase padded) @ drop 2 (toLowerCase tokenId))]"
    by (simp add: run push_def init_run_def)
  moreover have "length padded = 66" using hexZeroPad_shape(2) [OF assms(11)] by simp
  moreover have "length tokenId = 66" using hexZeroPad_shape(2) [OF assms(10)] by simp
  ultimately show ?thesis by simp
qed

theorem avatar_erc1155_zero_balance_witness:
  "avatar (BitPluginAvatar None) (example_env example_owner erc1155_avatar 0) = Inr None
   \<and> run_calls (fst (avatar_run (BitPluginAvatar None) (example_env example_owner erc1155_avatar 0)))
       = [(example_contract,
           ''0x00fdd58e'' @ replicate 24 CHR ''0'' @ drop 2 (toLowerCase example_owner)
             @ word_hex 5)]"
proof -
  let ?e = "example_env example_owner erc1155_avatar 0"
  let ?tid = "''0x'' @ word_hex 5"
  let ?pad = "''0x'' @ replicate 24 CHR ''0'' @ drop 2 example_owner"
  have h1: "info ?e = Inr (Some \<lparr>owner_key = Some example_owner\<rparr>)"
    by (simp add: example_env_def)
  have h2: "owner_key \<lparr>owner_key = Some example_owner\<rparr> = Some example_owner" by simp
  have h3: "example_owner \<noteq> []" by (simp add: example_owner_def)
  have h4: "records ?e ''profile.avatar'' = Inr (erc1155_avatar # [])"
    by (simp add: example_env_def)
  have h5: "matcher_eip155 erc1155_avatar = Some (''erc1155'', example_contract @ ''/5'')"
    by code_simp
  have h6: "toLowerCase ''erc1155'' = ''erc1155''" by code_simp
  have h7: "split_on CHR ''/'' (example_contract @ ''/5'') = [example_contract, ''5'']"
    by code_simp
  have h8: "getAddress ?e example_contract = Inr example_contract"
    by (simp add: example_env_def example_getAddress_def)
  have h9: "BigNumber_from ''5'' = Inr (BigNumber ''0x05'')" by code_simp
  have h10: "hexZeroPad (toHexString (BigNumber ''0x05'')) 32 = Inr ?tid" by code_simp
  have h11: "hexZeroPad example_owner 32 = Inr ?pad" by code_simp
  have h12: "provider_call ?e example_contract
      (''0x00fdd58e'' @ drop 2 (toLowerCase ?pad) @ drop 2 (toLowerCase ?tid))
      = Inr (''0x'' @ word_hex 0)" by code_simp
  have h13: "BigNumber_from (''0x'' @ word_hex 0) = Inr (BigNumber ''0x00'')" by code_simp
  have h14: "isZero (BigNumber ''0x00'')" by code_simp
  have eq: "''0x00fdd58e'' @ drop 2 (toLowerCase ?pad) @ drop 2 (toLowerCase ?tid)
      = ''0x00fdd58e'' @ replicate 24 CHR ''0'' @ drop 2 (toLowerCase example_owner) @ word_hex 5"
    by code_simp
  from avatar_erc1155_zero_balance [OF h1 h2 h3 h4 h5 h6 h7 h8 h9 h10 h11 h12 h13 h14]
  show ?thesis by (simp only: eq)
qed

text \<open>
  C10. \<open>_parseString\<close> never raises: for every buffer and every integer start index it
  returns a string or \<open>null\<close>. The sentinel \<open>0x\<close> gives \<open>null\<close>, and so does every
  exception of \<open>_parseBytes\<close> (a buffer that is not hex data, a word that is missing or
  beyond 53 bits) and of the UTF-8 decoding.
\<close>

theorem parseString_never_throws:
  "(\<exists>r. parseString result start = Inr r)
   \<and> parseString ''0x'' start = Inr None
   \<and> (parseBytes result start = Inl e \<longrightarrow> parseString result start = Inr None)
   \<and> (parseBytes result start = Inr b \<and> toUtf8String b = Inl e \<longrightarrow>
        parseString result start = Inr None)"
  by (auto simp: parseString_def parseBytes_def toUtf8String_def arrayify_def
      split: sum.splits option.splits)

theorem parseString_never_throws_witness:
  "parseBytes ''0x20'' 0 = Inl InvalidBigNumber \<and> parseString ''0x20'' 0 = Inr None
   \<and> parseBytes (abi_encode_string [CHR 0xFF]) 0 = Inr (Some ''0xff'')
   \<and> toUtf8String (Some ''0xff'') = Inl InvalidUtf8
   \<and> parseString (abi_encode_string [CHR 0xFF]) 0 = Inr None"
proof -
  have a: "parseBytes ''0x20'' 0 = Inl InvalidBigNumber" by code_simp
  have b: "parseBytes (abi_encode_string [CHR 0xFF]) 0 = Inr (Some ''0xff'')" by code_simp
  have c: "toUtf8String (Some ''0xff'') = Inl InvalidUtf8"
    by (simp add: toUtf8String_def arrayify_def isHexString_def is_hex_digit_def is_digit_def
        code_def hex_digit_val_def)
  show ?thesis
    using a b c
      parseString_never_throws [of "''0x20''" 0 InvalidBigNumber "Some ''0xff''"]
      parseString_never_throws [of "abi_encode_string [CHR 0xFF]" 0 InvalidUtf8 "Some ''0xff''"]
    by simp
qed

end
